(* ===== verification/Prelude.thy ===== *)
theory Prelude
  imports Complex_Main "HOL-Library.Word"
begin

text \<open>
  Shared vocabulary of the proxify development: the type synonyms of the model, the
  named collections that carry the component proofs, Python's \<open>round\<close> on floats
  (modelled on exact rationals, round half to even), and generic facts about the
  left-to-right and right-to-left scans (\<open>find\<close> over \<open>[a..<b]\<close>) that the
  source writes as \<open>for\<close> loops with \<open>break\<close>.
\<close>

named_theorems geom_simps "equations of the geometric helpers, unfolded by the component proofs"
named_theorems scan_facts "facts about first-hit scans over index ranges"

type_synonym box = "int \<times> int \<times> int \<times> int"
  \<comment> \<open>a PIL box \<open>(left, upper, right, lower)\<close>, right and lower exclusive\<close>

subsection \<open>Python's round on a float\<close>

text \<open>
  \<open>round(x)\<close> on a Python float rounds to the nearest integer and breaks ties towards
  the even neighbour. Floats are modelled as exact rationals.
\<close>

definition py_round :: "rat \<Rightarrow> int" where
  "py_round x = (let f = \<lfloor>x\<rfloor>; d = x - of_int f in
     if d < 1/2 then f else if 1/2 < d then f + 1 else if even f then f else f + 1)"

lemma py_round_err: "\<bar>of_int (py_round x) - x\<bar> \<le> 1/2"
proof -
  have a: "of_int \<lfloor>x\<rfloor> \<le> x" and b: "x < of_int \<lfloor>x\<rfloor> + 1" by linarith+
  show ?thesis unfolding py_round_def Let_def using a b by (auto split: if_splits)
qed

lemma py_round_of_int [simp]: "py_round (of_int k) = k"
  by (simp add: py_round_def)

lemma py_round_nonneg: "0 \<le> x \<Longrightarrow> 0 \<le> py_round x"
  using py_round_err [of x] by linarith

lemma py_round_mono_le: "x \<le> of_int k \<Longrightarrow> py_round x \<le> k"
proof -
  assume "x \<le> of_int k"
  moreover have "of_int (py_round x) - x \<le> 1/2"
    using abs_ge_self py_round_err by (rule order_trans)
  ultimately have "of_int (py_round x) < (of_int (k + 1) :: rat)" by simp
  then show ?thesis by linarith
qed

subsection \<open>Scans over index ranges\<close>

lemma find_append [scan_facts]:
  "find P (xs @ ys) = (case find P xs of None \<Rightarrow> find P ys | Some x \<Rightarrow> Some x)"
  by (induction xs) auto

lemma find_upt_Some [scan_facts]:
  "find P [a..<b] = Some x \<Longrightarrow> a \<le> x \<and> x < b \<and> P x \<and> (\<forall>y. a \<le> y \<and> y < x \<longrightarrow> \<not> P y)"
proof (induction b arbitrary: x)
  case 0
  then show ?case by simp
next
  case (Suc b)
  show ?case
  proof (cases "a \<le> b")
    case True
    then have split: "[a..<Suc b] = [a..<b] @ [b]" by simp
    show ?thesis
    proof (cases "find P [a..<b]")
      case None
      with Suc.prems split have "x = b" "P b" by (auto simp: find_append split: if_splits)
      with None True show ?thesis by (auto simp: find_None_iff)
    next
      case (Some z)
      with Suc.prems split have "z = x" by (simp add: find_append)
      with Suc.IH Some show ?thesis by auto
    qed
  next
    case False
    with Suc.prems show ?thesis by simp
  qed
qed

lemma find_rev_upt_Some [scan_facts]:
  "find P (rev [a..<b]) = Some x \<Longrightarrow> a \<le> x \<and> x < b \<and> P x \<and> (\<forall>y. x < y \<and> y < b \<longrightarrow> \<not> P y)"
proof (induction b arbitrary: x)
  case 0
  then show ?case by simp
next
  case (Suc b)
  show ?case
  proof (cases "a \<le> b")
    case True
    then have "rev [a..<Suc b] = b # rev [a..<b]" by simp
    with Suc.prems have "(P b \<and> x = b) \<or> (\<not> P b \<and> find P (rev [a..<b]) = Some x)"
      by (auto split: if_splits)
    then show ?thesis
    proof
      assume "P b \<and> x = b"
      with True show ?thesis by auto
    next
      assume h: "\<not> P b \<and> find P (rev [a..<b]) = Some x"
      with Suc.IH have "a \<le> x \<and> x < b \<and> P x \<and> (\<forall>y. x < y \<and> y < b \<longrightarrow> \<not> P y)" by blast
      with h show ?thesis using less_Suc_eq by auto
    qed
  next
    case False
    with Suc.prems show ?thesis by simp
  qed
qed

lemma find_upt_None [scan_facts]: "find P [a..<b] = None \<longleftrightarrow> (\<forall>x. a \<le> x \<and> x < b \<longrightarrow> \<not> P x)"
  by (auto simp: find_None_iff)

lemma find_rev_upt_None [scan_facts]: "find P (rev [a..<b]) = None \<longleftrightarrow> (\<forall>x. a \<le> x \<and> x < b \<longrightarrow> \<not> P x)"
  by (auto simp: find_None_iff)

lemma list_all_upt [simp]: "list_all P [a..<b] \<longleftrightarrow> (\<forall>x. a \<le> x \<and> x < b \<longrightarrow> P x)"
  by (auto simp: list_all_iff)

lemma list_ex_upt [simp]: "list_ex P [a..<b] \<longleftrightarrow> (\<exists>x. a \<le> x \<and> x < b \<and> P x)"
  by (auto simp: list_ex_iff)

end
