(* ===== verification/Pil.thy ===== *)
theory Pil
  imports Prelude
begin

text \<open>
  The part of Pillow (PIL) the script relies on, modelled from Pillow's documented
  behaviour: an RGBA image is a width, a height and a pixel function; \<open>Image.crop\<close>
  raises \<open>ValueError\<close> on an inverted box and fills the part of the box outside the
  source with transparent black; \<open>Image.new\<close> builds a uniform image. Resampling
  (\<open>resize\<close> with LANCZOS) and the \<open>ImageEnhance\<close> filters are not modelled
  pixel by pixel: they are the fields of a backend record, and the one property the
  script needs of them, their output size, is the contract \<open>backend_ok\<close>.
\<close>

record pixel =
  red :: "8 word"
  green :: "8 word"
  blue :: "8 word"
  alpha :: "8 word"

record image =
  img_w :: nat
  img_h :: nat
  img_px :: "nat \<Rightarrow> nat \<Rightarrow> pixel"

datatype pil_error = ValueError | IndexError

definition transparent :: pixel where
  "transparent = \<lparr>red = 0, green = 0, blue = 0, alpha = 0\<rparr>"

definition in_image :: "image \<Rightarrow> int \<Rightarrow> int \<Rightarrow> bool" where
  "in_image im x y \<longleftrightarrow> 0 \<le> x \<and> x < int (img_w im) \<and> 0 \<le> y \<and> y < int (img_h im)"

definition pil_crop :: "image \<Rightarrow> box \<Rightarrow> pil_error + image" where
  "pil_crop im b = (case b of (x0, y0, x1, y1) \<Rightarrow>
     if x1 < x0 \<or> y1 < y0 then Inl ValueError
     else Inr \<lparr>img_w = nat (x1 - x0), img_h = nat (y1 - y0),
               img_px = (\<lambda>x y. if in_image im (x0 + int x) (y0 + int y)
                                then img_px im (nat (x0 + int x)) (nat (y0 + int y))
                                else transparent)\<rparr>)"

definition pil_new :: "nat \<Rightarrow> nat \<Rightarrow> pixel \<Rightarrow> image" where
  "pil_new w h c = \<lparr>img_w = w, img_h = h, img_px = (\<lambda>_ _. c)\<rparr>"

definition img_size :: "image \<Rightarrow> nat \<times> nat" where
  "img_size im = (img_w im, img_h im)"

lemma pil_crop_ok [geom_simps]:
  "x0 \<le> x1 \<Longrightarrow> y0 \<le> y1 \<Longrightarrow>
   pil_crop im (x0, y0, x1, y1) =
     Inr \<lparr>img_w = nat (x1 - x0), img_h = nat (y1 - y0),
          img_px = (\<lambda>x y. if in_image im (x0 + int x) (y0 + int y)
                           then img_px im (nat (x0 + int x)) (nat (y0 + int y))
                           else transparent)\<rparr>"
  by (simp add: pil_crop_def)

lemma pil_crop_size:
  "pil_crop im (x0, y0, x1, y1) = Inr c \<Longrightarrow>
   img_w c = nat (x1 - x0) \<and> img_h c = nat (y1 - y0)"
  by (auto simp: pil_crop_def split: if_splits)

lemma pil_crop_Inl [simp]:
  "pil_crop im (x0, y0, x1, y1) = Inl e \<longleftrightarrow> (x1 < x0 \<or> y1 < y0) \<and> e = ValueError"
  by (auto simp: pil_crop_def)

lemma pil_crop_px_inside:
  "pil_crop im (x0, y0, x1, y1) = Inr c \<Longrightarrow> in_image im (x0 + int x) (y0 + int y) \<Longrightarrow>
   img_px c x y = img_px im (nat (x0 + int x)) (nat (y0 + int y))"
  by (auto simp: pil_crop_def split: if_splits)

lemma pil_crop_px_outside:
  "pil_crop im (x0, y0, x1, y1) = Inr c \<Longrightarrow> \<not> in_image im (x0 + int x) (y0 + int y) \<Longrightarrow>
   img_px c x y = transparent"
  by (auto simp: pil_crop_def split: if_splits)

subsection \<open>The resampling and enhancement backend\<close>

text \<open>
  \<open>pil_resize im w h\<close> is \<open>im.resize((w, h), LANCZOS)\<close>;
  \<open>pil_brightness im f\<close> is \<open>ImageEnhance.Brightness(im).enhance(f)\<close>;
  \<open>pil_color im f\<close> is \<open>ImageEnhance.Color(im).enhance(f)\<close>.
  Python float factors are rationals.
\<close>

record backend =
  pil_resize :: "image \<Rightarrow> nat \<Rightarrow> nat \<Rightarrow> image"
  pil_brightness :: "image \<Rightarrow> rat \<Rightarrow> image"
  pil_color :: "image \<Rightarrow> rat \<Rightarrow> image"

definition backend_ok :: "backend \<Rightarrow> bool" where
  "backend_ok be \<longleftrightarrow>
     (\<forall>im w h. img_size (pil_resize be im w h) = (w, h)) \<and>
     (\<forall>im f. img_size (pil_brightness be im f) = img_size im) \<and>
     (\<forall>im f. img_size (pil_color be im f) = img_size im)"

text \<open>A backend that meets the contract: nearest-neighbour scaling, identity filters.\<close>

definition nearest_resize :: "image \<Rightarrow> nat \<Rightarrow> nat \<Rightarrow> image" where
  "nearest_resize im w h =
     \<lparr>img_w = w, img_h = h,
      img_px = (\<lambda>x y. img_px im (x * img_w im div w) (y * img_h im div h))\<rparr>"

definition nearest_backend :: backend where
  "nearest_backend = \<lparr>pil_resize = nearest_resize, pil_brightness = (\<lambda>im f. im),
                      pil_color = (\<lambda>im f. im)\<rparr>"

lemma nearest_backend_ok: "backend_ok nearest_backend"
  by (simp add: backend_ok_def nearest_backend_def nearest_resize_def img_size_def)

end
