(* ===== verification/Detect.thy ===== *)
theory Detect
  imports Pil
begin

text \<open>
  Content Extent Detector: \<open>get_content_bounding_box\<close> (\<open>src/proxify.py\<close> lines
  64--101) and \<open>get_content_extents_at_row\<close> (lines 103--139). A pixel is content
  when one of its red, green, blue channels exceeds the threshold (lines 94, 122, 135);
  alpha is never read. The bounding box scan marks content pixels white in a fresh
  \<open>L\<close> mask while it records whether it saw any, then asks PIL's \<open>getbbox\<close> for the
  box of the non-zero mask pixels.
\<close>

definition is_content :: "int \<Rightarrow> pixel \<Rightarrow> bool" where
  "is_content th p \<longleftrightarrow> th < uint (red p) \<or> th < uint (green p) \<or> th < uint (blue p)"

text \<open>The reference notion: a content pixel inside the image.\<close>

definition content_at :: "int \<Rightarrow> image \<Rightarrow> nat \<Rightarrow> nat \<Rightarrow> bool" where
  "content_at th im x y \<longleftrightarrow> x < img_w im \<and> y < img_h im \<and> is_content th (img_px im x y)"

subsection \<open>The bounding box\<close>

text \<open>One iteration of the nested loop of lines 91--96: the state is the mask and the flag.\<close>

definition mark_step :: "int \<Rightarrow> image \<Rightarrow> nat \<Rightarrow> nat \<Rightarrow>
    (nat \<Rightarrow> nat \<Rightarrow> 8 word) \<times> bool \<Rightarrow> (nat \<Rightarrow> nat \<Rightarrow> 8 word) \<times> bool" where
  "mark_step th im y x st = (case st of (m, f) \<Rightarrow>
     if is_content th (img_px im x y) then (m(x := (m x)(y := 255)), True) else (m, f))"

definition content_mask_scan :: "int \<Rightarrow> image \<Rightarrow> (nat \<Rightarrow> nat \<Rightarrow> 8 word) \<times> bool" where
  "content_mask_scan th im =
     fold (\<lambda>y. fold (mark_step th im y) [0..<img_w im]) [0..<img_h im] (\<lambda>_ _. 0, False)"

text \<open>PIL's \<open>getbbox\<close> on an \<open>L\<close> image: the smallest box holding every non-zero pixel.\<close>

definition getbbox :: "nat \<Rightarrow> nat \<Rightarrow> (nat \<Rightarrow> nat \<Rightarrow> 8 word) \<Rightarrow> (nat \<times> nat \<times> nat \<times> nat) option" where
  "getbbox w h m =
     (let colP = (\<lambda>x. list_ex (\<lambda>y. m x y \<noteq> 0) [0..<h]);
          rowP = (\<lambda>y. list_ex (\<lambda>x. m x y \<noteq> 0) [0..<w]) in
      case (find colP [0..<w], find colP (rev [0..<w]), find rowP [0..<h], find rowP (rev [0..<h])) of
        (Some x0, Some x1, Some y0, Some y1) \<Rightarrow> Some (x0, y0, Suc x1, Suc y1)
      | _ \<Rightarrow> None)"

definition get_content_bounding_box :: "image \<Rightarrow> int \<Rightarrow> (nat \<times> nat \<times> nat \<times> nat) option" where
  "get_content_bounding_box im th =
     (if img_w im = 0 \<or> img_h im = 0 then None
      else case content_mask_scan th im of (m, has_any) \<Rightarrow>
        if \<not> has_any then None else getbbox (img_w im) (img_h im) m)"

subsection \<open>The extent of content on one row\<close>

text \<open>
  The left scan stops at the first content pixel; the right scan runs from \<open>width - 1\<close>
  down to \<open>content_start_x\<close> and stops at the first content pixel. Reading a row
  outside the image raises \<open>IndexError\<close> at the first pixel access, that is, when the
  image has a column at all.
\<close>

definition get_content_extents_at_row :: "image \<Rightarrow> nat \<Rightarrow> int \<Rightarrow> pil_error + (nat \<times> nat) option" where
  "get_content_extents_at_row im y_row th =
     (if img_h im \<le> y_row \<and> 0 < img_w im then Inl IndexError
      else let P = (\<lambda>x. is_content th (img_px im x y_row)) in
        case find P [0..<img_w im] of
          None \<Rightarrow> Inr None
        | Some s \<Rightarrow> Inr (Some (s, case find P (rev [s..<img_w im]) of None \<Rightarrow> s | Some e \<Rightarrow> e)))"

subsection \<open>The mask scan\<close>

lemma fold_mark_row:
  "fold (mark_step th im y) xs (m, f) =
     (\<lambda>x' y'. if x' \<in> set xs \<and> y' = y \<and> is_content th (img_px im x' y) then 255 else m x' y',
      f \<or> (\<exists>x\<in>set xs. is_content th (img_px im x y)))"
proof (induction xs arbitrary: m f)
  case Nil
  then show ?case by simp
next
  case (Cons a xs)
  then show ?case by (auto simp: mark_step_def fun_eq_iff)
qed

lemma fold_mark_rows:
  "fold (\<lambda>y. fold (mark_step th im y) xs) ys (m, f) =
     (\<lambda>x' y'. if x' \<in> set xs \<and> y' \<in> set ys \<and> is_content th (img_px im x' y') then 255 else m x' y',
      f \<or> (\<exists>y\<in>set ys. \<exists>x\<in>set xs. is_content th (img_px im x y)))"
proof (induction ys arbitrary: m f)
  case Nil
  then show ?case by simp
next
  case (Cons a ys)
  then show ?case by (auto simp: fold_mark_row fun_eq_iff)
qed

lemma content_mask_scan_eq:
  "content_mask_scan th im =
     (\<lambda>x y. if content_at th im x y then 255 else 0, \<exists>x y. content_at th im x y)"
proof -
  let ?P = "\<lambda>x y. is_content th (img_px im x y)"
  have "content_mask_scan th im =
     (\<lambda>x' y'. if x' \<in> set [0..<img_w im] \<and> y' \<in> set [0..<img_h im] \<and> ?P x' y' then 255 else 0,
      False \<or> (\<exists>y\<in>set [0..<img_h im]. \<exists>x\<in>set [0..<img_w im]. ?P x y))"
    unfolding content_mask_scan_def by (rule fold_mark_rows)
  moreover have "(False \<or> (\<exists>y\<in>set [0..<img_h im]. \<exists>x\<in>set [0..<img_w im]. ?P x y)) =
      (\<exists>x y. content_at th im x y)"
    unfolding content_at_def by fastforce
  ultimately show ?thesis by (simp add: content_at_def fun_eq_iff conj_commute)
qed

lemma getbbox_content_mask:
  assumes "getbbox w h (\<lambda>x y. if content_at th im x y then 255 else 0) = Some (x0, y0, x1, y1)"
    and "w = img_w im" and "h = img_h im"
  shows "x0 < x1 \<and> x1 \<le> w \<and> y0 < y1 \<and> y1 \<le> h \<and>
         (\<forall>x y. content_at th im x y \<longrightarrow> x0 \<le> x \<and> x < x1 \<and> y0 \<le> y \<and> y < y1) \<and>
         (\<exists>y. content_at th im x0 y) \<and> (\<exists>y. content_at th im (x1 - 1) y) \<and>
         (\<exists>x. content_at th im x y0) \<and> (\<exists>x. content_at th im x (y1 - 1))"
proof -
  let ?C = "content_at th im"
  have cP: "list_ex (\<lambda>y. (if ?C x y then 255 else 0 :: 8 word) \<noteq> 0) [0..<h] \<longleftrightarrow> (\<exists>y. ?C x y)" for x
    using assms(3) by (auto simp: content_at_def)
  have rP: "list_ex (\<lambda>x. (if ?C x y then 255 else 0 :: 8 word) \<noteq> 0) [0..<w] \<longleftrightarrow> (\<exists>x. ?C x y)" for y
    using assms(2) by (auto simp: content_at_def)
  from assms(1) obtain a b c d where
    fa: "find (\<lambda>x. \<exists>y. ?C x y) [0..<w] = Some x0" and
    fb: "find (\<lambda>x. \<exists>y. ?C x y) (rev [0..<w]) = Some b" and x1: "x1 = Suc b" and
    fc: "find (\<lambda>y. \<exists>x. ?C x y) [0..<h] = Some y0" and
    fd: "find (\<lambda>y. \<exists>x. ?C x y) (rev [0..<h]) = Some d" and y1: "y1 = Suc d"
    unfolding getbbox_def Let_def cP rP
    by (auto split: option.splits)
  note A = find_upt_Some [OF fa] and B = find_rev_upt_Some [OF fb]
    and C = find_upt_Some [OF fc] and D = find_rev_upt_Some [OF fd]
  have inside: "x0 \<le> x \<and> x < x1 \<and> y0 \<le> y \<and> y < y1" if c: "?C x y" for x y
  proof -
    have xw: "x < w" and yh: "y < h" using c assms(2,3) by (auto simp: content_at_def)
    have "\<not> x < x0" using A c by auto
    moreover have "\<not> b < x" using B c xw by auto
    moreover have "\<not> y < y0" using C c by auto
    moreover have "\<not> d < y" using D c yh by auto
    ultimately show ?thesis using x1 y1 by simp
  qed
  show ?thesis
    using A B C D x1 y1 inside by auto
qed

lemma getbbox_content_mask_exists:
  assumes "content_at th im x y"
  shows "\<exists>b. getbbox (img_w im) (img_h im) (\<lambda>x y. if content_at th im x y then 255 else 0) = Some b"
proof -
  let ?C = "content_at th im"
  have cP: "list_ex (\<lambda>y. (if ?C x y then 255 else 0 :: 8 word) \<noteq> 0) [0..<img_h im] \<longleftrightarrow> (\<exists>y. ?C x y)" for x
    by (auto simp: content_at_def)
  have rP: "list_ex (\<lambda>x. (if ?C x y then 255 else 0 :: 8 word) \<noteq> 0) [0..<img_w im] \<longleftrightarrow> (\<exists>x. ?C x y)" for y
    by (auto simp: content_at_def)
  have xw: "x < img_w im" and yh: "y < img_h im" using assms by (auto simp: content_at_def)
  have "find (\<lambda>x. \<exists>y. ?C x y) [0..<img_w im] \<noteq> None"
    and "find (\<lambda>x. \<exists>y. ?C x y) (rev [0..<img_w im]) \<noteq> None"
    and "find (\<lambda>y. \<exists>x. ?C x y) [0..<img_h im] \<noteq> None"
    and "find (\<lambda>y. \<exists>x. ?C x y) (rev [0..<img_h im]) \<noteq> None"
    using assms xw yh by (auto simp only: find_upt_None find_rev_upt_None)
  then show ?thesis
    unfolding getbbox_def Let_def cP rP by (auto split: option.splits)
qed

lemma get_content_bounding_box_eq:
  "get_content_bounding_box im th =
     (if \<exists>x y. content_at th im x y
      then getbbox (img_w im) (img_h im) (\<lambda>x y. if content_at th im x y then 255 else 0)
      else None)"
proof (cases "img_w im = 0 \<or> img_h im = 0")
  case True
  then have "\<not> (\<exists>x y. content_at th im x y)" by (auto simp: content_at_def)
  with True show ?thesis by (simp add: get_content_bounding_box_def)
next
  case False
  then show ?thesis by (auto simp: get_content_bounding_box_def content_mask_scan_eq)
qed

text \<open>
  C6. Tightness of the bounding box: when \<open>get_content_bounding_box\<close> returns a box,
  the box is non-empty and inside the image, every content pixel lies in it
  (right and lower edges exclusive), and each of its four edges holds a content pixel.
\<close>

theorem get_content_bounding_box_tight:
  assumes "get_content_bounding_box im th = Some (x0, y0, x1, y1)"
  shows "x0 < x1 \<and> x1 \<le> img_w im \<and> y0 < y1 \<and> y1 \<le> img_h im \<and>
         (\<forall>x y. content_at th im x y \<longrightarrow> x0 \<le> x \<and> x < x1 \<and> y0 \<le> y \<and> y < y1) \<and>
         (\<exists>y. content_at th im x0 y) \<and> (\<exists>y. content_at th im (x1 - 1) y) \<and>
         (\<exists>x. content_at th im x y0) \<and> (\<exists>x. content_at th im x (y1 - 1))"
proof -
  from assms have "getbbox (img_w im) (img_h im) (\<lambda>x y. if content_at th im x y then 255 else 0) =
      Some (x0, y0, x1, y1)"
    by (simp add: get_content_bounding_box_eq split: if_splits)
  then show ?thesis by (rule getbbox_content_mask) simp_all
qed

theorem get_content_bounding_box_tight_witness:
  "get_content_bounding_box
     \<lparr>img_w = 3, img_h = 2, img_px = (\<lambda>x y. if x = 1 \<and> y = 1
        then \<lparr>red = 200, green = 0, blue = 0, alpha = 255\<rparr> else transparent)\<rparr> 50
     = Some (1, 1, 2, 2) \<and>
   (\<exists>y. content_at 50 \<lparr>img_w = 3, img_h = 2, img_px = (\<lambda>x y. if x = 1 \<and> y = 1
        then \<lparr>red = 200, green = 0, blue = 0, alpha = 255\<rparr> else transparent)\<rparr> (2 - 1) y)"
proof -
  have h: "get_content_bounding_box
     \<lparr>img_w = 3, img_h = 2, img_px = (\<lambda>x y. if x = 1 \<and> y = 1
        then \<lparr>red = 200, green = 0, blue = 0, alpha = 255\<rparr> else transparent)\<rparr> 50
     = Some (1, 1, 2, 2)"
    by code_simp
  show ?thesis using get_content_bounding_box_tight [OF h] h by blast
qed

text \<open>
  C7. No content, no box: \<open>get_content_bounding_box\<close> returns \<open>None\<close> exactly when
  the image has no content pixel (in particular for an empty image), and never a
  zero-area box.
\<close>

theorem get_content_bounding_box_None:
  "get_content_bounding_box im th = None \<longleftrightarrow> (\<forall>x y. \<not> content_at th im x y)"
  using getbbox_content_mask_exists [of th im]
  by (auto simp: get_content_bounding_box_eq)

lemma row_extent_facts:
  assumes "get_content_extents_at_row im y th = Inr (Some (s, e))"
  shows "s \<le> e \<and> e < img_w im \<and> is_content th (img_px im s y) \<and> is_content th (img_px im e y) \<and>
         (\<forall>x. x < img_w im \<and> is_content th (img_px im x y) \<longrightarrow> s \<le> x \<and> x \<le> e)"
proof -
  let ?P = "\<lambda>x. is_content th (img_px im x y)"
  from assms have fs: "find ?P [0..<img_w im] = Some s"
    and fe: "e = (case find ?P (rev [s..<img_w im]) of None \<Rightarrow> s | Some e \<Rightarrow> e)"
    by (auto simp: get_content_extents_at_row_def Let_def split: if_splits option.splits)
  note S = find_upt_Some [OF fs]
  have "find ?P (rev [s..<img_w im]) \<noteq> None"
    using S by (auto simp: find_rev_upt_None)
  then obtain e' where fe': "find ?P (rev [s..<img_w im]) = Some e'" by blast
  note E = find_rev_upt_Some [OF fe']
  have "e = e'" using fe fe' by simp
  moreover have "s \<le> x" if "?P x" for x using S that by (meson le0 not_le)
  moreover have "x \<le> e'" if "x < img_w im" "?P x" for x using E that by (meson not_le)
  ultimately show ?thesis using S E by blast
qed

text \<open>
  C13. Row extents: when \<open>get_content_extents_at_row\<close> finds content on a row, it
  returns the leftmost and the rightmost content column of that row (both inclusive):
  both are content pixels, the first is not right of the second, and every content
  pixel of the row lies between them.
\<close>

theorem get_content_extents_at_row_Some:
  assumes "get_content_extents_at_row im y th = Inr (Some (s, e))"
  shows "s \<le> e \<and> e < img_w im \<and> is_content th (img_px im s y) \<and> is_content th (img_px im e y) \<and>
         (\<forall>x. x < img_w im \<and> is_content th (img_px im x y) \<longrightarrow> s \<le> x \<and> x \<le> e)"
  using assms by (rule row_extent_facts)

theorem get_content_extents_at_row_Some_witness:
  "get_content_extents_at_row
     \<lparr>img_w = 5, img_h = 1, img_px = (\<lambda>x y. if x = 1 \<or> x = 3
        then \<lparr>red = 0, green = 90, blue = 0, alpha = 255\<rparr> else transparent)\<rparr> 0 50 = Inr (Some (1, 3)) \<and>
   (1::nat) \<le> 3"
proof -
  have h: "get_content_extents_at_row
     \<lparr>img_w = 5, img_h = 1, img_px = (\<lambda>x y. if x = 1 \<or> x = 3
        then \<lparr>red = 0, green = 90, blue = 0, alpha = 255\<rparr> else transparent)\<rparr> 0 50 = Inr (Some (1, 3))"
    by code_simp
  show ?thesis using h get_content_extents_at_row_Some [OF h] by simp
qed

text \<open>
  C14. Row extents, the other outcomes: reading a row below the image raises
  \<open>IndexError\<close> exactly when the image has a column; otherwise the result is
  \<open>None\<close> exactly when the row holds no content pixel.
\<close>

theorem get_content_extents_at_row_outcomes:
  "(get_content_extents_at_row im y th = Inl IndexError \<longleftrightarrow> img_h im \<le> y \<and> 0 < img_w im) \<and>
   (get_content_extents_at_row im y th = Inr None \<longleftrightarrow>
      \<not> (img_h im \<le> y \<and> 0 < img_w im) \<and> (\<forall>x < img_w im. \<not> is_content th (img_px im x y)))"
  by (auto simp: get_content_extents_at_row_def Let_def find_upt_None split: option.splits
      dest: find_upt_Some)

theorem get_content_extents_at_row_outcomes_witness:
  "get_content_extents_at_row (pil_new 5 1 transparent) 1 50 = Inl IndexError \<and>
   get_content_extents_at_row (pil_new 5 1 transparent) 0 50 = Inr None"
proof -
  have a: "get_content_extents_at_row (pil_new 5 1 transparent) 1 50 = Inl IndexError"
    using get_content_extents_at_row_outcomes [of "pil_new 5 1 transparent" 1 50]
    by (simp add: pil_new_def)
  have b: "get_content_extents_at_row (pil_new 5 1 transparent) 0 50 = Inr None"
    using get_content_extents_at_row_outcomes [of "pil_new 5 1 transparent" 0 50]
    by (simp add: pil_new_def is_content_def transparent_def)
  from a b show ?thesis ..
qed

text \<open>
  C33. The mask loop of lines 78--97 is equivalent to its declarative reading: the mask
  is 255 exactly at the content pixels of the image and 0 elsewhere (also outside the
  image), and the flag is set exactly when some pixel is content.
\<close>

theorem content_mask_scan_equiv:
  "content_mask_scan th im =
     (\<lambda>x y. if content_at th im x y then 255 else 0, \<exists>x y. content_at th im x y)"
  by (rule content_mask_scan_eq)

end
