(* ===== verification/Border.thy ===== *)
theory Border
  imports Detect
begin

text \<open>
  Border Solidity Checker: \<open>check_strip_for_solid_lr_border\<close> (\<open>src/proxify.py\<close>
  lines 141--193). A strip has a solid left/right border when every pixel of its
  leftmost and rightmost \<open>check_width_px\<close> columns is background. The nested loops
  with \<open>break\<close> are short-circuiting \<open>list_all\<close>s; the right band is only
  examined when the left one is solid (line 176). The test \<open>not strip_image\<close> of
  line 145 is always false for a PIL image object, which defines neither
  \<open>__bool__\<close> nor \<open>__len__\<close>, and the mode conversion of lines 150--154 does not
  change red, green or blue of an RGBA image; neither is modelled.
\<close>

definition column_dark :: "image \<Rightarrow> int \<Rightarrow> nat \<Rightarrow> bool" where
  "column_dark s th x = list_all (\<lambda>y. \<not> is_content th (img_px s x y)) [0..<img_h s]"

definition check_strip_for_solid_lr_border :: "image \<Rightarrow> int \<Rightarrow> int \<Rightarrow> bool" where
  "check_strip_for_solid_lr_border s check_width_px th =
     (if img_h s = 0 \<or> int (img_w s) < 2 * check_width_px then False
      else
        let left_border_is_solid =
              (if 0 < check_width_px then list_all (column_dark s th) [0..<nat check_width_px]
               else False) in
        if \<not> left_border_is_solid then False
        else
          let right_border_is_solid =
                (if 0 < check_width_px
                 then list_all (column_dark s th) [img_w s - nat check_width_px..<img_w s]
                 else False) in
          left_border_is_solid \<and> right_border_is_solid)"

text \<open>The declarative reading of the check.\<close>

definition solid_lr :: "image \<Rightarrow> int \<Rightarrow> int \<Rightarrow> bool" where
  "solid_lr s cw th \<longleftrightarrow>
     0 < cw \<and> 0 < img_h s \<and> 2 * cw \<le> int (img_w s) \<and>
     (\<forall>x y. y < img_h s \<and> (int x < cw \<or> (int (img_w s) - cw \<le> int x \<and> x < img_w s)) \<longrightarrow>
        \<not> is_content th (img_px s x y))"

lemma check_strip_iff [geom_simps]:
  "check_strip_for_solid_lr_border s cw th \<longleftrightarrow> solid_lr s cw th"
proof (cases "img_h s = 0 \<or> int (img_w s) < 2 * cw \<or> cw \<le> 0")
  case True
  then show ?thesis by (auto simp: check_strip_for_solid_lr_border_def solid_lr_def)
next
  case False
  then have lo: "img_w s - nat cw \<le> x \<longleftrightarrow> int (img_w s) - cw \<le> int x" for x by auto
  have hi: "x < nat cw \<longleftrightarrow> int x < cw" for x by auto
  from False show ?thesis
    by (auto simp: check_strip_for_solid_lr_border_def solid_lr_def column_dark_def lo hi Let_def)
qed

text \<open>
  C11. Monotonicity in the edge width: for positive widths, a strip that is solid for a
  wider band is solid for every narrower band; widening can only turn true into false.
\<close>

theorem check_strip_monotone:
  assumes "0 < c1" and "c1 \<le> c2"
    and "check_strip_for_solid_lr_border s c2 th"
  shows "check_strip_for_solid_lr_border s c1 th"
proof -
  from assms(3) have s2: "solid_lr s c2 th" by (simp add: check_strip_iff)
  have band: "int x < c2 \<or> (int (img_w s) - c2 \<le> int x \<and> x < img_w s)"
    if "int x < c1 \<or> (int (img_w s) - c1 \<le> int x \<and> x < img_w s)" for x
    using that assms(2) by auto
  from s2 assms(1,2) band show ?thesis
    unfolding check_strip_iff solid_lr_def by (meson order_trans mult_left_mono zero_le_numeral)
qed

theorem check_strip_monotone_witness:
  "(0::int) < 1 \<and> (1::int) \<le> 2 \<and>
   check_strip_for_solid_lr_border (pil_new 4 1 transparent) 2 50 \<and>
   check_strip_for_solid_lr_border (pil_new 4 1 transparent) 1 50"
proof -
  have h: "check_strip_for_solid_lr_border (pil_new 4 1 transparent) 2 50" by code_simp
  have "check_strip_for_solid_lr_border (pil_new 4 1 transparent) 1 50"
    using check_strip_monotone [of 1 2, OF _ _ h] by simp
  with h show ?thesis by simp
qed

text \<open>
  C12. Degenerate strips are never solid: a strip with no rows, a strip narrower than
  two bands, or a non-positive band width gives \<open>False\<close>, even on an all-dark strip.
\<close>

theorem check_strip_degenerate:
  assumes "img_h s = 0 \<or> int (img_w s) < 2 * cw \<or> cw \<le> 0"
  shows "\<not> check_strip_for_solid_lr_border s cw th"
  using assms by (auto simp: check_strip_iff solid_lr_def)

theorem check_strip_degenerate_witness:
  "(img_h (pil_new 4 1 transparent) = 0 \<or> int (img_w (pil_new 4 1 transparent)) < 2 * 0 \<or> (0::int) \<le> 0) \<and>
   \<not> check_strip_for_solid_lr_border (pil_new 4 1 transparent) 0 50"
  using check_strip_degenerate [of "pil_new 4 1 transparent" 0 50] by simp

text \<open>
  C32. The loop of lines 176--191, with its two column bands and its early returns,
  computes exactly the declarative test \<open>solid_lr\<close>: positive band width, a
  non-empty strip at least two bands wide, and no content pixel in either band.
\<close>

theorem check_strip_equiv:
  "check_strip_for_solid_lr_border s cw th \<longleftrightarrow> solid_lr s cw th"
  by (rule check_strip_iff)

theorem check_strip_equiv_witness:
  "check_strip_for_solid_lr_border (pil_new 4 1 transparent) 1 50 \<and> solid_lr (pil_new 4 1 transparent) 1 50"
proof -
  have c: "check_strip_for_solid_lr_border (pil_new 4 1 transparent) 1 50" by code_simp
  with check_strip_equiv [of "pil_new 4 1 transparent" 1 50] show ?thesis by simp
qed

end
