(* ===== verification/Classify.thy ===== *)
theory Classify
  imports Border
begin

text \<open>
  Frame Classifier: \<open>determine_card_type\<close> (\<open>src/proxify.py\<close> lines 195--228).
  The card type is the source's string \<open>"standard"\<close>, \<open>"extended_art"\<close> or
  \<open>"borderless"\<close>, here a datatype. Two full-width strips are cropped with PIL and
  given to the border checker: the top zone (first 5\% of the height) and the middle
  zone (50\% to 60\%), each at least \<open>min_zone_height\<close> rows. Python computes
  \<open>int(height * 0.05)\<close>, \<open>int(height * 0.50)\<close> and \<open>int(height * 0.60)\<close> on
  floats; for every height below 200000 these equal \<open>height div 20\<close>,
  \<open>height div 2\<close> and \<open>3 * height div 5\<close>, the integer forms used here. An
  exception raised by a crop would escape to \<open>resize_card\<close>, so the classifier
  returns \<open>pil_error + card_type\<close>.
\<close>

datatype card_type = Standard | Extended_art | Borderless

definition min_zone_height :: "int \<Rightarrow> int" where
  "min_zone_height ew = max 1 (if 0 < ew then ew div 2 else 1)"

definition top_zone_box :: "image \<Rightarrow> int \<Rightarrow> box" where
  "top_zone_box im ew =
     (0, 0, int (img_w im), max (min_zone_height ew) (int (img_h im) div 20))"

definition middle_zone_box :: "image \<Rightarrow> int \<Rightarrow> box" where
  "middle_zone_box im ew =
     (let height = int (img_h im); mz = min_zone_height ew;
          top_y = height div 2; bottom_y = 3 * height div 5;
          calculated = bottom_y - top_y; actual = max mz calculated;
          top_y' = (if actual = mz \<and> calculated < mz \<and> height < top_y + actual
                    then max 0 (height - actual) else top_y) in
      (0, top_y', int (img_w im), top_y' + actual))"

definition classify_zones :: "bool \<Rightarrow> bool \<Rightarrow> card_type" where
  "classify_zones top_has_lr_border middle_has_lr_border =
     (if top_has_lr_border \<and> middle_has_lr_border then Standard
      else if top_has_lr_border \<and> \<not> middle_has_lr_border then Extended_art
      else Borderless)"

definition determine_card_type :: "image \<Rightarrow> int \<Rightarrow> int \<Rightarrow> pil_error + card_type" where
  "determine_card_type im th ew =
     (if int (img_h im) < 20 then Inr Borderless
      else case pil_crop im (top_zone_box im ew) of
        Inl e \<Rightarrow> Inl e
      | Inr top_zone_img \<Rightarrow>
          (case pil_crop im (middle_zone_box im ew) of
            Inl e \<Rightarrow> Inl e
          | Inr middle_zone_img \<Rightarrow>
              Inr (classify_zones (check_strip_for_solid_lr_border top_zone_img ew th)
                                  (check_strip_for_solid_lr_border middle_zone_img ew th))))"

lemma min_zone_height_pos: "1 \<le> min_zone_height ew"
  by (simp add: min_zone_height_def)

lemma top_zone_box_ok: "top_zone_box im ew = (x0, y0, x1, y1) \<Longrightarrow> x0 \<le> x1 \<and> y0 < y1"
  using min_zone_height_pos [of ew] by (auto simp: top_zone_box_def)

lemma middle_zone_box_ok:
  "middle_zone_box im ew = (x0, y0, x1, y1) \<Longrightarrow> x0 \<le> x1 \<and> 0 \<le> y0 \<and> y0 < y1"
  using min_zone_height_pos [of ew]
  by (auto simp: middle_zone_box_def Let_def split: if_splits)

lemma crop_zone_dark:
  assumes crop: "pil_crop im (0, y0, int (img_w im), y1) = Inr c"
    and solid: "solid_lr c cw th"
    and y: "0 \<le> y0" "y0 \<le> int y" "int y < y1" "y < img_h im"
    and x: "int x < cw \<or> (int (img_w im) - cw \<le> int x \<and> x < img_w im)"
  shows "\<not> is_content th (img_px im x y)"
proof -
  have size: "img_w c = img_w im" "img_h c = nat (y1 - y0)"
    using pil_crop_size [OF crop] by simp_all
  let ?y' = "nat (int y - y0)"
  have xw: "x < img_w im" using x solid by (auto simp: solid_lr_def size)
  have inside: "in_image im (0 + int x) (y0 + int ?y')"
    using xw y by (simp add: in_image_def)
  have px: "img_px c x ?y' = img_px im x y"
    using pil_crop_px_inside [OF crop inside] y by simp
  have yc: "?y' < img_h c" using y size by simp
  have band: "int x < cw \<or> (int (img_w c) - cw \<le> int x \<and> x < img_w c)" using x size by simp
  from solid have "\<forall>x y. y < img_h c \<and> (int x < cw \<or> (int (img_w c) - cw \<le> int x \<and> x < img_w c)) \<longrightarrow>
      \<not> is_content th (img_px c x y)" by (simp add: solid_lr_def)
  with yc band have "\<not> is_content th (img_px c x ?y')" by blast
  with px show ?thesis by simp
qed

lemma determine_card_type_Inr:
  assumes "determine_card_type im th ew = Inr t" and "20 \<le> int (img_h im)"
  obtains top mid where
    "pil_crop im (top_zone_box im ew) = Inr top" and "pil_crop im (middle_zone_box im ew) = Inr mid"
    and "t = classify_zones (check_strip_for_solid_lr_border top ew th)
                            (check_strip_for_solid_lr_border mid ew th)"
  using assms by (auto simp: determine_card_type_def split: sum.splits)

lemma determine_card_type_Inr_ex: "\<exists>t. determine_card_type im th ew = Inr t"
proof -
  obtain a b c d where tb: "top_zone_box im ew = (a, b, c, d)" by (cases "top_zone_box im ew") auto
  obtain a' b' c' d' where mb: "middle_zone_box im ew = (a', b', c', d')"
    by (cases "middle_zone_box im ew") auto
  from top_zone_box_ok [OF tb] middle_zone_box_ok [OF mb]
  show ?thesis by (auto simp: determine_card_type_def tb mb pil_crop_def)
qed

text \<open>
  C8. The classifier never raises: both zone boxes are well-formed (left not right of
  right, upper above lower), so neither PIL crop raises \<open>ValueError\<close> and
  \<open>determine_card_type\<close> always yields a card type.
\<close>

theorem determine_card_type_total: "\<exists>t. determine_card_type im th ew = Inr t"
  by (rule determine_card_type_Inr_ex)

text \<open>
  C9. A card classified \<open>standard\<close> or \<open>extended_art\<close> has, in the source image,
  only background pixels in the leftmost and rightmost \<open>edge_check_pixel_width\<close>
  columns of the rows of the top zone.
\<close>

theorem determine_card_type_top_edges_dark:
  assumes "determine_card_type im th ew = Inr t" and "t \<noteq> Borderless"
    and "y < img_h im" and "int y < max (min_zone_height ew) (int (img_h im) div 20)"
    and "int x < ew \<or> (int (img_w im) - ew \<le> int x \<and> x < img_w im)"
  shows "\<not> is_content th (img_px im x y)"
proof -
  have h: "20 \<le> int (img_h im)"
    using assms(1,2) by (auto simp: determine_card_type_def split: if_splits)
  obtain top mid where top: "pil_crop im (top_zone_box im ew) = Inr top"
    and t: "t = classify_zones (check_strip_for_solid_lr_border top ew th)
                               (check_strip_for_solid_lr_border mid ew th)"
    using determine_card_type_Inr [OF assms(1) h] by blast
  from t assms(2) have "solid_lr top ew th"
    by (auto simp: classify_zones_def check_strip_iff split: if_splits)
  with top assms(3-5) show ?thesis
    by (intro crop_zone_dark [of im 0 "max (min_zone_height ew) (int (img_h im) div 20)" top ew th])
       (simp_all add: top_zone_box_def)
qed

theorem determine_card_type_top_edges_dark_witness:
  "determine_card_type \<lparr>img_w = 30, img_h = 20, img_px = (\<lambda>x y. if 10 \<le> x \<and> x < 20
      then \<lparr>red = 255, green = 255, blue = 255, alpha = 255\<rparr> else transparent)\<rparr> 50 10 = Inr Standard \<and>
   \<not> is_content 50 (img_px \<lparr>img_w = 30, img_h = 20, img_px = (\<lambda>x y. if 10 \<le> x \<and> x < 20
      then \<lparr>red = 255, green = 255, blue = 255, alpha = 255\<rparr> else transparent)\<rparr> 25 2)"
proof -
  have d: "determine_card_type \<lparr>img_w = 30, img_h = 20, img_px = (\<lambda>x y. if 10 \<le> x \<and> x < 20
      then \<lparr>red = 255, green = 255, blue = 255, alpha = 255\<rparr> else transparent)\<rparr> 50 10 = Inr Standard"
    by code_simp
  show ?thesis
    using d determine_card_type_top_edges_dark [OF d, of 2 25] by (simp add: min_zone_height_def)
qed

text \<open>
  C10. A card classified \<open>standard\<close> has, in the source image, only background pixels
  in the leftmost and rightmost \<open>edge_check_pixel_width\<close> columns of the rows of the
  middle zone that lie inside the image.
\<close>

theorem determine_card_type_middle_edges_dark:
  assumes "determine_card_type im th ew = Inr Standard"
    and "middle_zone_box im ew = (x0, y0, x1, y1)"
    and "y0 \<le> int y" and "int y < y1" and "y < img_h im"
    and "int x < ew \<or> (int (img_w im) - ew \<le> int x \<and> x < img_w im)"
  shows "\<not> is_content th (img_px im x y)"
proof -
  have h: "20 \<le> int (img_h im)"
    using assms(1) by (auto simp: determine_card_type_def split: if_splits)
  obtain top mid where mid: "pil_crop im (middle_zone_box im ew) = Inr mid"
    and t: "Standard = classify_zones (check_strip_for_solid_lr_border top ew th)
                               (check_strip_for_solid_lr_border mid ew th)"
    using determine_card_type_Inr [OF assms(1) h] by blast
  from t have "solid_lr mid ew th"
    by (auto simp: classify_zones_def check_strip_iff split: if_splits)
  moreover have "x0 = 0" "x1 = int (img_w im)" "0 \<le> y0"
    using assms(2) middle_zone_box_ok [OF assms(2)] by (auto simp: middle_zone_box_def Let_def)
  ultimately show ?thesis
    using mid assms(2-6) by (intro crop_zone_dark [of im y0 y1 mid ew th]) simp_all
qed

theorem determine_card_type_middle_edges_dark_witness:
  "determine_card_type \<lparr>img_w = 30, img_h = 20, img_px = (\<lambda>x y. if 10 \<le> x \<and> x < 20
      then \<lparr>red = 255, green = 255, blue = 255, alpha = 255\<rparr> else transparent)\<rparr> 50 10 = Inr Standard \<and>
   middle_zone_box \<lparr>img_w = 30, img_h = 20, img_px = (\<lambda>x y. if 10 \<le> x \<and> x < 20
      then \<lparr>red = 255, green = 255, blue = 255, alpha = 255\<rparr> else transparent)\<rparr> 10 = (0, 10, 30, 15) \<and>
   \<not> is_content 50 (img_px \<lparr>img_w = 30, img_h = 20, img_px = (\<lambda>x y. if 10 \<le> x \<and> x < 20
      then \<lparr>red = 255, green = 255, blue = 255, alpha = 255\<rparr> else transparent)\<rparr> 0 12)"
proof -
  have d: "determine_card_type \<lparr>img_w = 30, img_h = 20, img_px = (\<lambda>x y. if 10 \<le> x \<and> x < 20
      then \<lparr>red = 255, green = 255, blue = 255, alpha = 255\<rparr> else transparent)\<rparr> 50 10 = Inr Standard"
    by code_simp
  have m: "middle_zone_box \<lparr>img_w = 30, img_h = 20, img_px = (\<lambda>x y. if 10 \<le> x \<and> x < 20
      then \<lparr>red = 255, green = 255, blue = 255, alpha = 255\<rparr> else transparent)\<rparr> 10 = (0, 10, 30, 15)"
    by (simp add: middle_zone_box_def min_zone_height_def Let_def)
  show ?thesis
    using d m determine_card_type_middle_edges_dark [OF d m, of 12 0] by simp
qed

text \<open>
  C16. When the middle zone fits in the image (its height at most the image height), the
  clamping of lines 214--216 keeps it inside the image: it starts at or below row 0 and
  ends at or above the last row.
\<close>

theorem middle_zone_within:
  assumes "middle_zone_box im ew = (x0, y0, x1, y1)" and "y1 - y0 \<le> int (img_h im)"
  shows "0 \<le> y0 \<and> y1 \<le> int (img_h im)"
proof -
  let ?h = "int (img_h im)"
  have "3 * ?h div 5 \<le> ?h" and "0 \<le> ?h div 2" by linarith+
  then show ?thesis using assms min_zone_height_pos [of ew]
    by (auto simp: middle_zone_box_def Let_def max_def split: if_splits)
qed

theorem middle_zone_within_witness:
  "middle_zone_box (pil_new 30 20 transparent) 10 = (0, 10, 30, 15) \<and>
   15 - 10 \<le> int (img_h (pil_new 30 20 transparent)) \<and>
   0 \<le> (10::int) \<and> (15::int) \<le> int (img_h (pil_new 30 20 transparent))"
proof -
  have m: "middle_zone_box (pil_new 30 20 transparent) 10 = (0, 10, 30, 15)"
    by (simp add: middle_zone_box_def min_zone_height_def pil_new_def Let_def)
  have f: "15 - 10 \<le> int (img_h (pil_new 30 20 transparent))" by (simp add: pil_new_def)
  from middle_zone_within [OF m f] m f show ?thesis by simp
qed

text \<open>
  C17. When the minimum zone height exceeds the image height, the middle zone is pulled
  up to row 0 but still reaches below the image: its box is \<open>(0, 0, width,
  min_zone_height)\<close>, and PIL pads the missing rows with transparent black.
\<close>

theorem middle_zone_exceeds:
  assumes "20 \<le> int (img_h im)" and "int (img_h im) < min_zone_height ew"
  shows "middle_zone_box im ew = (0, 0, int (img_w im), min_zone_height ew)"
proof -
  let ?h = "int (img_h im)"
  have "3 * ?h div 5 - ?h div 2 < min_zone_height ew" using assms by linarith
  moreover have "?h < ?h div 2 + min_zone_height ew" using assms by linarith
  ultimately show ?thesis
    using assms by (simp add: middle_zone_box_def Let_def)
qed

theorem middle_zone_exceeds_witness:
  "20 \<le> int (img_h (pil_new 30 20 transparent)) \<and>
   int (img_h (pil_new 30 20 transparent)) < min_zone_height 60 \<and>
   middle_zone_box (pil_new 30 20 transparent) 60 = (0, 0, 30, 30)"
proof -
  have a: "20 \<le> int (img_h (pil_new 30 20 transparent))" by (simp add: pil_new_def)
  have b: "int (img_h (pil_new 30 20 transparent)) < min_zone_height 60"
    by (simp add: pil_new_def min_zone_height_def)
  from middle_zone_exceeds [OF a b] a b show ?thesis
    by (simp add: pil_new_def min_zone_height_def)
qed

end
