(* ===== verification/Config.thy ===== *)
theory Config
  imports Pil
begin

text \<open>
  The configuration block of \<open>src/proxify.py\<close> (lines 6--62): millimetre and inch
  measurements, the derived pixel constants at 1200 DPI, and the sheet margins. The
  script keeps them as module globals; the model gathers them in one record that every
  component receives, and \<open>proxify_config\<close> computes the script's values with the
  script's own expressions (Python floats as exact rationals, \<open>round\<close> as
  \<open>py_round\<close>).
\<close>

record config =
  card_width_px :: int
  card_height_px :: int
  border_top_px :: int
  border_left_px :: int
  border_right_px :: int
  border_bottom_px :: int
  scan_offset_px :: int
  full_art_bottom_crop_px :: int
  black_threshold :: int
  edge_zone_px :: int
  saturation_factor :: rat
  brightness_factor :: rat
  force_standard :: bool
  paper_width_px :: int
  paper_height_px :: int
  margin_x :: int
  margin_y :: int
  line_width :: int

definition dpi :: int where "dpi = 1200"

definition mm_to_in :: rat where "mm_to_in = 1 / 25.4"

definition mm_px :: "rat \<Rightarrow> int" where
  "mm_px mm = py_round ((mm * mm_to_in) * of_int dpi)"

definition grid_margins :: "int \<Rightarrow> int \<Rightarrow> int \<Rightarrow> int \<Rightarrow> int \<times> int" where
  "grid_margins pw ph cw ch =
     (let mx = (pw - 3 * cw) div 2; my = (ph - 3 * ch) div 2 in
      if mx < 0 \<or> my < 0 then (max 0 mx, max 0 my) else (mx, my))"

definition proxify_config :: config where
  "proxify_config =
     (let cw = mm_px 63.5; ch = mm_px 88.9;
          pw = py_round (8.5 * of_int dpi); ph = py_round (11 * of_int dpi);
          (mx, my) = grid_margins pw ph cw ch in
      \<lparr>card_width_px = cw, card_height_px = ch,
       border_top_px = mm_px 3, border_left_px = mm_px 3,
       border_right_px = mm_px 3, border_bottom_px = mm_px 4.1,
       scan_offset_px = mm_px 3, full_art_bottom_crop_px = 80,
       black_threshold = 50, edge_zone_px = 10,
       saturation_factor = 1, brightness_factor = 1, force_standard = False,
       paper_width_px = pw, paper_height_px = ph, margin_x = mx, margin_y = my,
       line_width = 4\<rparr>)"

lemma grid_margins_nonneg: "grid_margins pw ph cw ch = (mx, my) \<Longrightarrow> 0 \<le> mx \<and> 0 \<le> my"
  by (auto simp: grid_margins_def Let_def split: if_splits)

lemma proxify_config_card: "card_width_px proxify_config = 3000 \<and> card_height_px proxify_config = 4200"
  by code_simp

lemma proxify_config_borders:
  "border_top_px proxify_config = 142 \<and> border_left_px proxify_config = 142 \<and>
   border_right_px proxify_config = 142 \<and> border_bottom_px proxify_config = 194 \<and>
   scan_offset_px proxify_config = 142"
  by code_simp

lemma proxify_config_page:
  "paper_width_px proxify_config = 10200 \<and> paper_height_px proxify_config = 13200 \<and>
   margin_x proxify_config = 600 \<and> margin_y proxify_config = 300"
  by code_simp

lemma proxify_config_rest:
  "full_art_bottom_crop_px proxify_config = 80 \<and> black_threshold proxify_config = 50 \<and>
   edge_zone_px proxify_config = 10 \<and> saturation_factor proxify_config = 1 \<and>
   brightness_factor proxify_config = 1 \<and> \<not> force_standard proxify_config \<and>
   line_width proxify_config = 4"
  by (simp add: proxify_config_def Let_def case_prod_unfold)

end
