(* ===== verification/Crop.thy ===== *)
theory Crop
  imports Classify Config
begin

text \<open>
  Border-Normalizing Cropper: the geometric part of \<open>resize_card\<close>
  (\<open>src/proxify.py\<close> lines 249--324). \<open>effective_content\<close> is the content box the
  crop is built around (lines 249--283): the overall bounding box, the whole image when
  there is none, and for extended-art cards the left and right ends of the content on
  the row \<open>scan_offset_px\<close> below the top of the content. \<open>border_crop\<close> is the
  crop decision of lines 287--324: back-project each target border into source pixels
  (\<open>keep_orig_border\<close>), widen the content box by them, clamp to the image, and fall
  back to the content box or to the whole image when the result is empty. The decision
  is returned as a \<open>crop_path\<close>, the outcome that the source reports with \<open>print\<close>.
  Python floats are exact rationals; \<open>1e-6\<close> is \<open>1/1000000\<close>.
\<close>

datatype crop_path = Proportional box | Effective_box box | Full_image

definition bbox_or_full :: "image \<Rightarrow> (nat \<times> nat \<times> nat \<times> nat) option \<Rightarrow> box" where
  "bbox_or_full im bb = (case bb of
      Some (x0, y0, x1, y1) \<Rightarrow> (int x0, int y0, int x1, int y1)
    | None \<Rightarrow> (0, 0, int (img_w im), int (img_h im)))"

definition effective_content :: "config \<Rightarrow> card_type \<Rightarrow> image \<Rightarrow> pil_error + box" where
  "effective_content cfg card_ty im =
     (let th = black_threshold cfg;
          overall_content_bbox = get_content_bounding_box im th;
          (cx0, cy0, cx1, cy1) = bbox_or_full im overall_content_bbox in
      if card_ty = Extended_art \<and> overall_content_bbox \<noteq> None then
        let vertical_sample_y = cy0 + scan_offset_px cfg in
        if 0 \<le> vertical_sample_y \<and> vertical_sample_y < int (img_h im) then
          (case get_content_extents_at_row im (nat vertical_sample_y) th of
             Inl e \<Rightarrow> Inl e
           | Inr None \<Rightarrow> Inr (cx0, cy0, cx1, cy1)
           | Inr (Some (s, e)) \<Rightarrow>
               if s \<le> e then Inr (int s, cy0, int e, cy1) else Inr (cx0, cy0, cx1, cy1))
        else Inr (cx0, cy0, cx1, cy1)
      else Inr (cx0, cy0, cx1, cy1))"

definition keep_orig_border :: "int \<Rightarrow> int \<Rightarrow> int \<Rightarrow> int" where
  "keep_orig_border border_px final_artwork content_orig =
     (let scale = (if content_orig \<noteq> 0 then of_int final_artwork / of_int content_orig else 0 :: rat) in
      if 1 / 1000000 < \<bar>scale\<bar> then py_round (of_int border_px / scale) else 0)"

definition final_artwork_width :: "config \<Rightarrow> int" where
  "final_artwork_width cfg = max 1 (card_width_px cfg - border_left_px cfg - border_right_px cfg)"

definition final_artwork_height :: "config \<Rightarrow> int" where
  "final_artwork_height cfg = max 1 (card_height_px cfg - border_top_px cfg - border_bottom_px cfg)"

definition proportional_box :: "config \<Rightarrow> image \<Rightarrow> box \<Rightarrow> box" where
  "proportional_box cfg im b = (case b of (cx0, cy0, cx1, cy1) \<Rightarrow>
     let cw = cx1 - cx0; ch = cy1 - cy0;
         faw = final_artwork_width cfg; fah = final_artwork_height cfg;
         keep_l = keep_orig_border (border_left_px cfg) faw cw;
         keep_t = keep_orig_border (border_top_px cfg) fah ch;
         keep_r = keep_orig_border (border_right_px cfg) faw cw;
         keep_b = keep_orig_border (border_bottom_px cfg) fah ch in
     (max 0 (cx0 - keep_l), max 0 (cy0 - keep_t),
      min (int (img_w im)) (cx1 + keep_r), min (int (img_h im)) (cy1 + keep_b)))"

definition border_crop :: "config \<Rightarrow> image \<Rightarrow> box \<Rightarrow> crop_path" where
  "border_crop cfg im b = (case b of (cx0, cy0, cx1, cy1) \<Rightarrow>
     if 0 < cx1 - cx0 \<and> 0 < cy1 - cy0 then
       (case proportional_box cfg im b of (x0, y0, x1, y1) \<Rightarrow>
          if x0 < x1 \<and> y0 < y1 then Proportional (x0, y0, x1, y1)
          else if 0 \<le> cx0 \<and> 0 \<le> cy0 \<and> cx0 < cx1 \<and> cy0 < cy1 then Effective_box b
          else Full_image)
     else Full_image)"

text \<open>The source's frame is thick enough that no side of the widened box is clamped.\<close>

definition crop_unclamped :: "config \<Rightarrow> image \<Rightarrow> box \<Rightarrow> bool" where
  "crop_unclamped cfg im b = (case b of (cx0, cy0, cx1, cy1) \<Rightarrow>
     let cw = cx1 - cx0; ch = cy1 - cy0;
         faw = final_artwork_width cfg; fah = final_artwork_height cfg in
     keep_orig_border (border_left_px cfg) faw cw \<le> cx0 \<and>
     keep_orig_border (border_top_px cfg) fah ch \<le> cy0 \<and>
     cx1 + keep_orig_border (border_right_px cfg) faw cw \<le> int (img_w im) \<and>
     cy1 + keep_orig_border (border_bottom_px cfg) fah ch \<le> int (img_h im))"

definition borders_fit :: "config \<Rightarrow> bool" where
  "borders_fit cfg \<longleftrightarrow>
     0 \<le> border_left_px cfg \<and> 0 \<le> border_right_px cfg \<and>
     0 \<le> border_top_px cfg \<and> 0 \<le> border_bottom_px cfg \<and>
     border_left_px cfg + border_right_px cfg < card_width_px cfg \<and>
     border_top_px cfg + border_bottom_px cfg < card_height_px cfg"

subsection \<open>Back-projection of a border\<close>

lemma keep_orig_border_err:
  assumes "0 < a" and "0 < c" and "c < 1000000"
  shows "\<bar>of_int (keep_orig_border B a c) - of_int B * of_int c / of_int a\<bar> \<le> (1/2 :: rat)"
proof -
  let ?s = "of_int a / of_int c :: rat"
  have "(1 :: rat) / 1000000 < 1 / of_int c"
    using assms(2,3) by (simp add: frac_less2)
  also have "1 / of_int c \<le> ?s" using assms(1,2) by (simp add: divide_right_mono)
  finally have lt: "1 / 1000000 < ?s" .
  have abs_s: "\<bar>?s\<bar> = ?s" by (rule abs_of_nonneg) (use assms(1,2) in simp)
  from lt have big: "1 / 1000000 < \<bar>?s\<bar>" by (simp only: abs_s)
  have "of_int B / ?s = of_int B * of_int c / of_int a" using assms(1,2) by simp
  then have "keep_orig_border B a c = py_round (of_int B * of_int c / of_int a)"
    using big assms(2) by (simp add: keep_orig_border_def Let_def)
  then show ?thesis using py_round_err by simp
qed

lemma border_error_bound:
  fixes a c C Bl Br kl kr W :: rat
  assumes a: "a = C - Bl - Br" "0 < a" and c: "0 < c" and B: "0 \<le> Bl" "0 \<le> Br"
    and el: "\<bar>kl - Bl * c / a\<bar> \<le> 1/2" and er: "\<bar>kr - Br * c / a\<bar> \<le> 1/2"
    and W: "W = c + kl + kr" "0 < W"
  shows "\<bar>kl * C / W - Bl\<bar> \<le> C / (2 * W)"
proof -
  define dl where "dl = kl - Bl * c / a"
  define dr where "dr = kr - Br * c / a"
  have kl: "kl = Bl * c / a + dl" and kr: "kr = Br * c / a + dr" by (simp_all add: dl_def dr_def)
  have C: "C = a + Bl + Br" using a(1) by simp
  have "W = c * C / a + dl + dr"
    using a(2) by (simp add: W(1) kl kr C field_simps)
  then have eq: "kl * C - Bl * W = dl * (C - Bl) - Bl * dr"
    using a(2) by (simp add: kl C field_simps)
  have CB: "0 \<le> C - Bl" using a B by simp
  have "\<bar>dl * (C - Bl) - Bl * dr\<bar> \<le> \<bar>dl * (C - Bl)\<bar> + \<bar>Bl * dr\<bar>"
    by (rule abs_triangle_ineq4)
  also have "\<dots> = \<bar>dl\<bar> * (C - Bl) + Bl * \<bar>dr\<bar>"
    using CB B by (simp add: abs_mult)
  also have "\<dots> \<le> 1/2 * (C - Bl) + Bl * (1/2)"
    using el er CB B unfolding dl_def dr_def by (intro add_mono mult_right_mono mult_left_mono) simp_all
  also have "\<dots> = C / 2" by (simp add: field_simps)
  finally have "\<bar>dl * (C - Bl) - Bl * dr\<bar> \<le> C / 2" .
  then have num: "\<bar>kl * C - Bl * W\<bar> \<le> C / 2" by (simp only: eq)
  have "kl * C / W - Bl = (kl * C - Bl * W) / W" using W by (simp add: field_simps)
  then have "\<bar>kl * C / W - Bl\<bar> = \<bar>kl * C - Bl * W\<bar> / W" using W by simp
  also have "\<dots> \<le> (C / 2) / W" using W(2) by (intro divide_right_mono num) simp
  also have "(C / 2) / W = C / (2 * W)" by simp
  finally show ?thesis .
qed

lemma axis_border_error:
  fixes C Bl Br c kl kr :: int
  assumes kl: "kl = keep_orig_border Bl (max 1 (C - Bl - Br)) c"
    and kr: "kr = keep_orig_border Br (max 1 (C - Bl - Br)) c"
    and B: "0 \<le> Bl" "0 \<le> Br" "Bl + Br < C" and c: "0 < c" "c < 1000000"
    and W: "0 < c + kl + kr"
  shows "\<bar>of_int kl * of_int C / of_int (c + kl + kr) - of_int Bl\<bar> \<le> (of_int C / (2 * of_int (c + kl + kr)) :: rat) \<and>
         \<bar>of_int kr * of_int C / of_int (c + kl + kr) - of_int Br\<bar> \<le> (of_int C / (2 * of_int (c + kl + kr)) :: rat)"
proof -
  have a: "max 1 (C - Bl - Br) = C - Bl - Br" using B by simp
  have pos: "(0 :: rat) < of_int (C - Bl - Br)" using B by simp
  have el: "\<bar>of_int kl - of_int Bl * of_int c / of_int (C - Bl - Br)\<bar> \<le> (1/2 :: rat)"
    unfolding kl a using B c by (intro keep_orig_border_err) simp_all
  have er: "\<bar>of_int kr - of_int Br * of_int c / of_int (C - Bl - Br)\<bar> \<le> (1/2 :: rat)"
    unfolding kr a using B c by (intro keep_orig_border_err) simp_all
  have Wp: "(0 :: rat) < of_int (c + kl + kr)" using W by simp
  have l: "\<bar>of_int kl * of_int C / of_int (c + kl + kr) - of_int Bl\<bar> \<le> (of_int C / (2 * of_int (c + kl + kr)) :: rat)"
    by (rule border_error_bound [where a = "of_int (C - Bl - Br)" and c = "of_int c" and Br = "of_int Br"
          and kr = "of_int kr"]) (use B c el er Wp in simp_all)
  have r: "\<bar>of_int kr * of_int C / of_int (c + kl + kr) - of_int Br\<bar> \<le> (of_int C / (2 * of_int (c + kl + kr)) :: rat)"
    by (rule border_error_bound [where a = "of_int (C - Bl - Br)" and c = "of_int c" and Br = "of_int Bl"
          and kr = "of_int kl"]) (use B c el er Wp in simp_all)
  from l r show ?thesis ..
qed

lemma proportional_unclamped:
  assumes "border_crop cfg im (cx0, cy0, cx1, cy1) = Proportional (x0, y0, x1, y1)"
    and "crop_unclamped cfg im (cx0, cy0, cx1, cy1)"
  shows "0 < cx1 - cx0 \<and> 0 < cy1 - cy0 \<and> x0 < x1 \<and> y0 < y1 \<and>
    x0 = cx0 - keep_orig_border (border_left_px cfg) (final_artwork_width cfg) (cx1 - cx0) \<and>
    x1 = cx1 + keep_orig_border (border_right_px cfg) (final_artwork_width cfg) (cx1 - cx0) \<and>
    y0 = cy0 - keep_orig_border (border_top_px cfg) (final_artwork_height cfg) (cy1 - cy0) \<and>
    y1 = cy1 + keep_orig_border (border_bottom_px cfg) (final_artwork_height cfg) (cy1 - cy0)"
  using assms
  by (auto simp: border_crop_def proportional_box_def crop_unclamped_def Let_def split: if_splits)

lemma proportional_border_error:
  assumes crop: "border_crop cfg im (cx0, cy0, cx1, cy1) = Proportional (x0, y0, x1, y1)"
    and fit: "borders_fit cfg" and unc: "crop_unclamped cfg im (cx0, cy0, cx1, cy1)"
    and cw: "cx1 - cx0 < 1000000" and ch: "cy1 - cy0 < 1000000"
  shows "\<bar>of_int (cx0 - x0) * of_int (card_width_px cfg) / of_int (x1 - x0) - of_int (border_left_px cfg)\<bar>
           \<le> (of_int (card_width_px cfg) / (2 * of_int (x1 - x0)) :: rat) \<and>
         \<bar>of_int (x1 - cx1) * of_int (card_width_px cfg) / of_int (x1 - x0) - of_int (border_right_px cfg)\<bar>
           \<le> (of_int (card_width_px cfg) / (2 * of_int (x1 - x0)) :: rat) \<and>
         \<bar>of_int (cy0 - y0) * of_int (card_height_px cfg) / of_int (y1 - y0) - of_int (border_top_px cfg)\<bar>
           \<le> (of_int (card_height_px cfg) / (2 * of_int (y1 - y0)) :: rat) \<and>
         \<bar>of_int (y1 - cy1) * of_int (card_height_px cfg) / of_int (y1 - y0) - of_int (border_bottom_px cfg)\<bar>
           \<le> (of_int (card_height_px cfg) / (2 * of_int (y1 - y0)) :: rat)"
proof -
  note P = proportional_unclamped [OF crop unc]
  have wx: "x1 - x0 = (cx1 - cx0) + (cx0 - x0) + (x1 - cx1)" and wy: "y1 - y0 = (cy1 - cy0) + (cy0 - y0) + (y1 - cy1)"
    by simp_all
  have hx: "\<bar>of_int (cx0 - x0) * of_int (card_width_px cfg) / of_int ((cx1 - cx0) + (cx0 - x0) + (x1 - cx1)) - of_int (border_left_px cfg)\<bar>
           \<le> (of_int (card_width_px cfg) / (2 * of_int ((cx1 - cx0) + (cx0 - x0) + (x1 - cx1))) :: rat) \<and>
         \<bar>of_int (x1 - cx1) * of_int (card_width_px cfg) / of_int ((cx1 - cx0) + (cx0 - x0) + (x1 - cx1)) - of_int (border_right_px cfg)\<bar>
           \<le> (of_int (card_width_px cfg) / (2 * of_int ((cx1 - cx0) + (cx0 - x0) + (x1 - cx1))) :: rat)"
    using P fit cw
    by (intro axis_border_error [where kl = "cx0 - x0" and kr = "x1 - cx1"])
       (simp_all add: borders_fit_def final_artwork_width_def)
  have hy: "\<bar>of_int (cy0 - y0) * of_int (card_height_px cfg) / of_int ((cy1 - cy0) + (cy0 - y0) + (y1 - cy1)) - of_int (border_top_px cfg)\<bar>
           \<le> (of_int (card_height_px cfg) / (2 * of_int ((cy1 - cy0) + (cy0 - y0) + (y1 - cy1))) :: rat) \<and>
         \<bar>of_int (y1 - cy1) * of_int (card_height_px cfg) / of_int ((cy1 - cy0) + (cy0 - y0) + (y1 - cy1)) - of_int (border_bottom_px cfg)\<bar>
           \<le> (of_int (card_height_px cfg) / (2 * of_int ((cy1 - cy0) + (cy0 - y0) + (y1 - cy1))) :: rat)"
    using P fit ch
    by (intro axis_border_error [where kl = "cy0 - y0" and kr = "y1 - cy1"])
       (simp_all add: borders_fit_def final_artwork_height_def)
  show ?thesis using hx hy by (simp only: wx [symmetric] wy [symmetric])
qed

text \<open>
  C1. Border accuracy of the proportional crop: when the crop is not clamped by the
  image edges, the border the resize to \<open>card_width_px \<times> card_height_px\<close> prints on
  each side (the source columns or rows kept outside the content, scaled by the final
  resize) differs from the configured border by at most \<open>card size / (2 \<times> crop
  size)\<close> output pixels: half a source pixel of rounding in \<open>keep_orig_border\<close>.
\<close>

theorem border_accuracy:
  assumes "border_crop cfg im (cx0, cy0, cx1, cy1) = Proportional (x0, y0, x1, y1)"
    and "borders_fit cfg" and "crop_unclamped cfg im (cx0, cy0, cx1, cy1)"
    and "cx1 - cx0 < 1000000" and "cy1 - cy0 < 1000000"
  shows "\<bar>of_int (cx0 - x0) * of_int (card_width_px cfg) / of_int (x1 - x0) - of_int (border_left_px cfg)\<bar>
           \<le> (of_int (card_width_px cfg) / (2 * of_int (x1 - x0)) :: rat) \<and>
         \<bar>of_int (x1 - cx1) * of_int (card_width_px cfg) / of_int (x1 - x0) - of_int (border_right_px cfg)\<bar>
           \<le> (of_int (card_width_px cfg) / (2 * of_int (x1 - x0)) :: rat) \<and>
         \<bar>of_int (cy0 - y0) * of_int (card_height_px cfg) / of_int (y1 - y0) - of_int (border_top_px cfg)\<bar>
           \<le> (of_int (card_height_px cfg) / (2 * of_int (y1 - y0)) :: rat) \<and>
         \<bar>of_int (y1 - cy1) * of_int (card_height_px cfg) / of_int (y1 - y0) - of_int (border_bottom_px cfg)\<bar>
           \<le> (of_int (card_height_px cfg) / (2 * of_int (y1 - y0)) :: rat)"
  using assms by (rule proportional_border_error)

theorem border_accuracy_witness:
  "border_crop proxify_config (pil_new 3000 4200 transparent) (142, 142, 2858, 4006) = Proportional (0, 0, 3000, 4200) \<and>
   \<bar>of_int (142 - 0) * of_int (card_width_px proxify_config) / of_int (3000 - 0) - of_int (border_left_px proxify_config)\<bar>
     \<le> (of_int (card_width_px proxify_config) / (2 * of_int (3000 - 0)) :: rat)"
proof -
  have c: "border_crop proxify_config (pil_new 3000 4200 transparent) (142, 142, 2858, 4006) = Proportional (0, 0, 3000, 4200)"
    by code_simp
  have f: "borders_fit proxify_config" by code_simp
  have u: "crop_unclamped proxify_config (pil_new 3000 4200 transparent) (142, 142, 2858, 4006)" by code_simp
  show ?thesis using c border_accuracy [OF c f u] by simp
qed

text \<open>
  C2. Within one pixel: when, in addition, the crop is at least half the card size on
  each axis (the final resize enlarges at most twice), every printed border is within
  one output pixel of its configured width.
\<close>

theorem border_accuracy_one_pixel:
  assumes "border_crop cfg im (cx0, cy0, cx1, cy1) = Proportional (x0, y0, x1, y1)"
    and "borders_fit cfg" and "crop_unclamped cfg im (cx0, cy0, cx1, cy1)"
    and "cx1 - cx0 < 1000000" and "cy1 - cy0 < 1000000"
    and "card_width_px cfg \<le> 2 * (x1 - x0)" and "card_height_px cfg \<le> 2 * (y1 - y0)"
  shows "\<bar>of_int (cx0 - x0) * of_int (card_width_px cfg) / of_int (x1 - x0) - of_int (border_left_px cfg)\<bar> \<le> (1 :: rat) \<and>
         \<bar>of_int (x1 - cx1) * of_int (card_width_px cfg) / of_int (x1 - x0) - of_int (border_right_px cfg)\<bar> \<le> (1 :: rat) \<and>
         \<bar>of_int (cy0 - y0) * of_int (card_height_px cfg) / of_int (y1 - y0) - of_int (border_top_px cfg)\<bar> \<le> (1 :: rat) \<and>
         \<bar>of_int (y1 - cy1) * of_int (card_height_px cfg) / of_int (y1 - y0) - of_int (border_bottom_px cfg)\<bar> \<le> (1 :: rat)"
proof -
  note E = proportional_border_error [OF assms(1-5)]
  have P: "x0 < x1" "y0 < y1" using proportional_unclamped [OF assms(1,3)] by simp_all
  have "(of_int (card_width_px cfg) :: rat) \<le> 2 * of_int (x1 - x0)" using assms(6) by linarith
  then have wx: "(of_int (card_width_px cfg) / (2 * of_int (x1 - x0)) :: rat) \<le> 1"
    using P by (simp add: divide_le_eq)
  have "(of_int (card_height_px cfg) :: rat) \<le> 2 * of_int (y1 - y0)" using assms(7) by linarith
  then have wy: "(of_int (card_height_px cfg) / (2 * of_int (y1 - y0)) :: rat) \<le> 1"
    using P by (simp add: divide_le_eq)
  from E wx wy show ?thesis by linarith
qed

theorem border_accuracy_one_pixel_witness:
  "border_crop proxify_config (pil_new 2000 2800 transparent) (100, 100, 1900, 2600) = Proportional (6, 8, 1994, 2726) \<and>
   \<bar>of_int (100 - 6) * of_int (card_width_px proxify_config) / of_int (1994 - 6) - of_int (border_left_px proxify_config)\<bar> \<le> (1 :: rat) \<and>
   \<bar>of_int (2726 - 2600) * of_int (card_height_px proxify_config) / of_int (2726 - 8) - of_int (border_bottom_px proxify_config)\<bar> \<le> (1 :: rat)"
proof -
  have c: "border_crop proxify_config (pil_new 2000 2800 transparent) (100, 100, 1900, 2600) = Proportional (6, 8, 1994, 2726)"
    by code_simp
  have f: "borders_fit proxify_config" by code_simp
  have u: "crop_unclamped proxify_config (pil_new 2000 2800 transparent) (100, 100, 1900, 2600)" by code_simp
  have w: "card_width_px proxify_config \<le> 2 * (1994 - 6)" "card_height_px proxify_config \<le> 2 * (2726 - 8)"
    using proxify_config_card by simp_all
  show ?thesis using c border_accuracy_one_pixel [OF c f u _ _ w] by simp
qed

text \<open>
  C15. Extended-art cards mix two conventions for the right edge. When the scan row
  finds content from \<open>s\<close> to \<open>e\<close>, the effective content box takes \<open>e\<close>, the
  column of the last content pixel, as its right edge, while the bounding box it
  replaces has an exclusive right edge (no content pixel in column \<open>x1\<close>). The
  right border is then measured from inside the content and comes out one source pixel
  narrower than the left one.
\<close>

theorem extended_art_right_edge_inclusive:
  assumes bb: "get_content_bounding_box im (black_threshold cfg) = Some (bx0, by0, bx1, by1)"
    and off: "0 \<le> scan_offset_px cfg" and row: "int by0 + scan_offset_px cfg < int (img_h im)"
    and ext: "get_content_extents_at_row im (nat (int by0 + scan_offset_px cfg)) (black_threshold cfg)
              = Inr (Some (s, e))"
  shows "effective_content cfg Extended_art im = Inr (int s, int by0, int e, int by1) \<and>
         is_content (black_threshold cfg) (img_px im e (nat (int by0 + scan_offset_px cfg))) \<and>
         (\<forall>y. \<not> content_at (black_threshold cfg) im bx1 y)"
proof -
  note R = row_extent_facts [OF ext]
  have eff: "effective_content cfg Extended_art im = Inr (int s, int by0, int e, int by1)"
    using bb off row ext R by (simp add: effective_content_def bbox_or_full_def Let_def)
  from bb have "getbbox (img_w im) (img_h im)
      (\<lambda>x y. if content_at (black_threshold cfg) im x y then 255 else 0) = Some (bx0, by0, bx1, by1)"
    by (simp add: get_content_bounding_box_eq split: if_splits)
  then have "\<forall>x y. content_at (black_threshold cfg) im x y \<longrightarrow> x < bx1"
    by (blast dest: getbbox_content_mask)
  with eff R show ?thesis by blast
qed

theorem extended_art_right_edge_inclusive_witness:
  "get_content_bounding_box \<lparr>img_w = 6, img_h = 4, img_px = (\<lambda>x y. if 1 \<le> x \<and> x \<le> 4 \<and> 1 \<le> y \<and> y \<le> 2
        then \<lparr>red = 255, green = 255, blue = 255, alpha = 255\<rparr> else transparent)\<rparr>
     (black_threshold (proxify_config\<lparr>scan_offset_px := 1\<rparr>)) = Some (1, 1, 5, 3) \<and>
   effective_content (proxify_config\<lparr>scan_offset_px := 1\<rparr>) Extended_art
     \<lparr>img_w = 6, img_h = 4, img_px = (\<lambda>x y. if 1 \<le> x \<and> x \<le> 4 \<and> 1 \<le> y \<and> y \<le> 2
        then \<lparr>red = 255, green = 255, blue = 255, alpha = 255\<rparr> else transparent)\<rparr> = Inr (1, 1, 4, 3)"
proof -
  have bb: "get_content_bounding_box \<lparr>img_w = 6, img_h = 4, img_px = (\<lambda>x y. if 1 \<le> x \<and> x \<le> 4 \<and> 1 \<le> y \<and> y \<le> 2
        then \<lparr>red = 255, green = 255, blue = 255, alpha = 255\<rparr> else transparent)\<rparr>
     (black_threshold (proxify_config\<lparr>scan_offset_px := 1\<rparr>)) = Some (1, 1, 5, 3)"
    by code_simp
  have off: "0 \<le> scan_offset_px (proxify_config\<lparr>scan_offset_px := 1\<rparr>)" by simp
  have row: "int 1 + scan_offset_px (proxify_config\<lparr>scan_offset_px := 1\<rparr>) <
      int (img_h \<lparr>img_w = 6, img_h = 4, img_px = (\<lambda>x y. if 1 \<le> x \<and> x \<le> 4 \<and> 1 \<le> y \<and> y \<le> 2
        then \<lparr>red = 255, green = 255, blue = 255, alpha = 255\<rparr> else transparent)\<rparr>)" by simp
  have ext: "get_content_extents_at_row \<lparr>img_w = 6, img_h = 4, img_px = (\<lambda>x y. if 1 \<le> x \<and> x \<le> 4 \<and> 1 \<le> y \<and> y \<le> 2
        then \<lparr>red = 255, green = 255, blue = 255, alpha = 255\<rparr> else transparent)\<rparr>
      (nat (int 1 + scan_offset_px (proxify_config\<lparr>scan_offset_px := 1\<rparr>)))
      (black_threshold (proxify_config\<lparr>scan_offset_px := 1\<rparr>)) = Inr (Some (1, 4))"
    by code_simp
  show ?thesis using bb extended_art_right_edge_inclusive [OF bb off row ext] by simp
qed

end
