(* ===== verification/Render.thy ===== *)
theory Render
  imports Crop
begin

text \<open>
  Card Renderer: \<open>resize_card\<close> (\<open>src/proxify.py\<close> lines 230--386). After the file
  is opened and converted to RGBA (the \<open>load\<close> parameter: \<open>None\<close> is
  \<open>FileNotFoundError\<close> or a decoding error), the card type is forced or classified,
  the effective content box is computed for every type (lines 250--283), and then the
  standard/extended-art path crops with the cropper's decision while the borderless path
  trims the bottom (\<open>full_art_crop\<close>, lines 337--351). Both resize to the card size
  unless the image already has it (\<open>fit_to_card\<close>), then brightness and saturation
  are applied in that order when their factors differ from 1. Every exception inside the
  \<open>try\<close> becomes \<open>None\<close> (lines 379--386). The fallback of lines 361--366 is
  unreachable, since both branches set \<open>image_ready_for_enhancement\<close> to a PIL image
  (always true), and is not modelled.
\<close>

definition full_art_crop :: "config \<Rightarrow> image \<Rightarrow> pil_error + image" where
  "full_art_crop cfg im =
     (let t = full_art_bottom_crop_px cfg; original_w = img_w im; original_h = img_h im in
      if 0 < t then
        if int original_h \<le> t then
          (if 0 < original_h then pil_crop im (0, 0, int original_w, 1)
           else Inr (pil_new (max 1 original_w) 1 transparent))
        else if 0 < original_w then pil_crop im (0, 0, int original_w, max 1 (int original_h - t))
        else Inr (pil_new 1 1 transparent)
      else Inr im)"

definition fit_to_card :: "backend \<Rightarrow> config \<Rightarrow> image \<Rightarrow> image" where
  "fit_to_card be cfg im =
     (if img_size im \<noteq> (nat (card_width_px cfg), nat (card_height_px cfg))
      then pil_resize be im (nat (card_width_px cfg)) (nat (card_height_px cfg))
      else im)"

definition enhance :: "backend \<Rightarrow> config \<Rightarrow> image \<Rightarrow> image" where
  "enhance be cfg im =
     (let after_brightness = (if brightness_factor cfg \<noteq> 1
                              then pil_brightness be im (brightness_factor cfg) else im) in
      if saturation_factor cfg \<noteq> 1
      then pil_color be after_brightness (saturation_factor cfg) else after_brightness)"

definition crop_to_path :: "image \<Rightarrow> crop_path \<Rightarrow> pil_error + image" where
  "crop_to_path im p = (case p of
      Proportional b \<Rightarrow> pil_crop im b
    | Effective_box b \<Rightarrow> pil_crop im b
    | Full_image \<Rightarrow> Inr im)"

definition card_type_of :: "config \<Rightarrow> image \<Rightarrow> pil_error + card_type" where
  "card_type_of cfg im =
     (if force_standard cfg then Inr Standard
      else determine_card_type im (black_threshold cfg) (edge_zone_px cfg))"

definition resize_card_image :: "backend \<Rightarrow> config \<Rightarrow> image \<Rightarrow> pil_error + image" where
  "resize_card_image be cfg im =
     (case card_type_of cfg im of
        Inl e \<Rightarrow> Inl e
      | Inr card_ty \<Rightarrow>
          (case effective_content cfg card_ty im of
             Inl e \<Rightarrow> Inl e
           | Inr eff \<Rightarrow>
               (case (if card_ty = Borderless then full_art_crop cfg im
                      else crop_to_path im (border_crop cfg im eff)) of
                  Inl e \<Rightarrow> Inl e
                | Inr img_to_final_resize \<Rightarrow>
                    Inr (enhance be cfg (fit_to_card be cfg img_to_final_resize)))))"

definition resize_card :: "backend \<Rightarrow> config \<Rightarrow> ('p \<Rightarrow> image option) \<Rightarrow> 'p \<Rightarrow> image option" where
  "resize_card be cfg load image_path =
     (case load image_path of
        None \<Rightarrow> None
      | Some original_img \<Rightarrow>
          (case resize_card_image be cfg original_img of Inl _ \<Rightarrow> None | Inr r \<Rightarrow> Some r))"

subsection \<open>No step raises\<close>

lemma border_crop_box_ok:
  "border_crop cfg im b = Proportional (x0, y0, x1, y1) \<Longrightarrow> x0 \<le> x1 \<and> y0 \<le> y1"
  "border_crop cfg im b = Effective_box (x0, y0, x1, y1) \<Longrightarrow> x0 \<le> x1 \<and> y0 \<le> y1"
  by (auto simp: border_crop_def split: prod.splits if_splits)

lemma crop_to_path_Inr: "\<exists>c. crop_to_path im (border_crop cfg im b) = Inr c"
proof (cases "border_crop cfg im b")
  case (Proportional bx)
  then show ?thesis
    using border_crop_box_ok(1) [of cfg im b] by (cases bx) (auto simp: crop_to_path_def pil_crop_def)
next
  case (Effective_box bx)
  then show ?thesis
    using border_crop_box_ok(2) [of cfg im b] by (cases bx) (auto simp: crop_to_path_def pil_crop_def)
next
  case Full_image
  then show ?thesis by (simp add: crop_to_path_def)
qed

lemma full_art_crop_Inr: "\<exists>c. full_art_crop cfg im = Inr c"
  by (auto simp: full_art_crop_def Let_def pil_crop_def)

lemma effective_content_Inr: "\<exists>b. effective_content cfg t im = Inr b"
  by (auto simp: effective_content_def get_content_extents_at_row_def Let_def
      split: prod.splits option.splits)

lemma card_type_of_Inr: "\<exists>t. card_type_of cfg im = Inr t"
  using determine_card_type_Inr_ex by (simp add: card_type_of_def)

lemma resize_card_image_Inr: "\<exists>r. resize_card_image be cfg im = Inr r"
proof -
  obtain t where t: "card_type_of cfg im = Inr t" using card_type_of_Inr by blast
  obtain b where b: "effective_content cfg t im = Inr b" using effective_content_Inr by blast
  have "\<exists>c. (if t = Borderless then full_art_crop cfg im
                 else crop_to_path im (border_crop cfg im b)) = Inr c"
    using full_art_crop_Inr [of cfg im] crop_to_path_Inr [of im cfg b] by simp
  then obtain c where c: "(if t = Borderless then full_art_crop cfg im
                      else crop_to_path im (border_crop cfg im b)) = Inr c" ..
  show ?thesis by (simp add: resize_card_image_def t b c)
qed

lemma enhance_size: "backend_ok be \<Longrightarrow> img_size (enhance be cfg im) = img_size im"
  by (simp add: enhance_def backend_ok_def Let_def)

lemma fit_to_card_size:
  "backend_ok be \<Longrightarrow> img_size (fit_to_card be cfg im) = (nat (card_width_px cfg), nat (card_height_px cfg))"
  by (simp add: fit_to_card_def backend_ok_def)

text \<open>
  C3. Every card has the card size: with a backend whose resize produces the requested
  size and whose filters keep the size, every image that loads yields a card (no step
  of the pipeline raises) of exactly \<open>card_width_px \<times> card_height_px\<close> pixels, on
  every path: proportional crop, content-box or whole-image fallback, bottom trim.
\<close>

theorem resize_card_size:
  assumes "backend_ok be" and "load image_path = Some im"
  shows "\<exists>r. resize_card be cfg load image_path = Some r \<and>
             img_size r = (nat (card_width_px cfg), nat (card_height_px cfg))"
proof -
  obtain t where t: "card_type_of cfg im = Inr t" using card_type_of_Inr by blast
  obtain b where b: "effective_content cfg t im = Inr b" using effective_content_Inr by blast
  have "\<exists>c. (if t = Borderless then full_art_crop cfg im
                 else crop_to_path im (border_crop cfg im b)) = Inr c"
    using full_art_crop_Inr [of cfg im] crop_to_path_Inr [of im cfg b] by simp
  then obtain c where c: "(if t = Borderless then full_art_crop cfg im
                      else crop_to_path im (border_crop cfg im b)) = Inr c" ..
  have "resize_card be cfg load image_path = Some (enhance be cfg (fit_to_card be cfg c))"
    using assms(2) by (simp add: resize_card_def resize_card_image_def t b c)
  moreover have "img_size (enhance be cfg (fit_to_card be cfg c)) =
      (nat (card_width_px cfg), nat (card_height_px cfg))"
    using assms(1) by (simp add: enhance_size fit_to_card_size)
  ultimately show ?thesis by blast
qed

theorem resize_card_size_witness:
  "backend_ok nearest_backend \<and>
   (\<lambda>p::nat. Some (pil_new 10 10 transparent)) 0 = Some (pil_new 10 10 transparent) \<and>
   (\<exists>r. resize_card nearest_backend proxify_config (\<lambda>p::nat. Some (pil_new 10 10 transparent)) 0 = Some r \<and>
        img_size r = (3000, 4200))"
proof -
  have l: "(\<lambda>p::nat. Some (pil_new 10 10 transparent)) 0 = Some (pil_new 10 10 transparent)" by simp
  have "\<exists>r. resize_card nearest_backend proxify_config (\<lambda>p::nat. Some (pil_new 10 10 transparent)) 0 = Some r \<and>
        img_size r = (nat (card_width_px proxify_config), nat (card_height_px proxify_config))"
    by (rule resize_card_size [where load = "\<lambda>p::nat. Some (pil_new 10 10 transparent)" and image_path = 0,
          OF nearest_backend_ok l])
  then show ?thesis using nearest_backend_ok l by (simp add: proxify_config_card)
qed

text \<open>
  C4. A card is missing only when its file does not load: \<open>resize_card\<close> returns
  \<open>None\<close> exactly for a missing or undecodable file, whatever the backend and the
  configuration.
\<close>

theorem resize_card_None: "resize_card be cfg load image_path = None \<longleftrightarrow> load image_path = None"
proof (cases "load image_path")
  case None
  then show ?thesis by (simp add: resize_card_def)
next
  case (Some im)
  obtain r where "resize_card_image be cfg im = Inr r" using resize_card_image_Inr by blast
  with Some show ?thesis by (simp add: resize_card_def)
qed

text \<open>
  C5. Full-art bottom trim: with a positive trim \<open>T\<close> on an image of width
  \<open>W > 0\<close> and height \<open>H > 0\<close>, the borderless path hands the resize the top rows
  of the image, full width, \<open>H - T\<close> rows tall when \<open>T < H\<close> and exactly one row
  tall when \<open>T \<ge> H\<close>.
\<close>

theorem full_art_trim:
  assumes "0 < full_art_bottom_crop_px cfg" and "0 < img_w im" and "0 < img_h im"
  shows "\<exists>c. full_art_crop cfg im = Inr c \<and> img_w c = img_w im \<and>
             int (img_h c) = (if full_art_bottom_crop_px cfg < int (img_h im)
                              then int (img_h im) - full_art_bottom_crop_px cfg else 1) \<and>
             (\<forall>x y. x < img_w c \<and> y < img_h c \<longrightarrow> img_px c x y = img_px im x y)"
  using assms
  by (auto simp: full_art_crop_def Let_def pil_crop_def in_image_def)

theorem full_art_trim_witness:
  "0 < full_art_bottom_crop_px proxify_config \<and> 0 < img_w (pil_new 100 500 transparent) \<and>
   0 < img_h (pil_new 100 500 transparent) \<and>
   (\<exists>c. full_art_crop proxify_config (pil_new 100 500 transparent) = Inr c \<and> img_h c = 420)"
proof -
  have a: "0 < full_art_bottom_crop_px proxify_config" using proxify_config_rest by simp
  have b: "0 < img_w (pil_new 100 500 transparent)" "0 < img_h (pil_new 100 500 transparent)"
    by (simp_all add: pil_new_def)
  from full_art_trim [OF a b] obtain c where
    "full_art_crop proxify_config (pil_new 100 500 transparent) = Inr c"
    "int (img_h c) = (if full_art_bottom_crop_px proxify_config < int (img_h (pil_new 100 500 transparent))
        then int (img_h (pil_new 100 500 transparent)) - full_art_bottom_crop_px proxify_config else 1)"
    by blast
  then show ?thesis using a b proxify_config_rest by (auto simp: pil_new_def)
qed

end
