(* ===== verification/Sheet.thy ===== *)
theory Sheet
  imports Render
begin

text \<open>
  Sheet Composer and batch driver. \<open>create_printable_sheet\<close> (\<open>src/proxify.py\<close>
  lines 388--422) renders up to nine cards and pastes them row by row into a 3 \<open>\<times>\<close> 3
  grid at \<open>(MARGIN_X + col * CARD_WIDTH_PX, MARGIN_Y + row * CARD_HEIGHT_PX)\<close>, skipping
  a card that did not load, then draws two vertical and two horizontal cut lines. The
  page is modelled by the sequence of drawing operations the function issues on the
  white canvas (\<open>sheet_op\<close>); saving the file is I/O. The batch driver (lines
  458--504) cuts the sorted file list into full sheets of nine and reports the rest as
  leftovers (\<open>batch_plan\<close>).
\<close>

datatype sheet_op = Paste image int int | VLine int | HLine int

fun is_paste :: "sheet_op \<Rightarrow> bool" where
  "is_paste (Paste _ _ _) = True"
| "is_paste _ = False"

text \<open>The grid cells in the order of the two nested loops of lines 393--394.\<close>

definition grid_cells :: "(nat \<times> nat) list" where
  "grid_cells = [(row, col). row \<leftarrow> [0..<3], col \<leftarrow> [0..<3]]"

definition cell_origin :: "config \<Rightarrow> nat \<times> nat \<Rightarrow> int \<times> int" where
  "cell_origin cfg rc = (case rc of (row, col) \<Rightarrow>
     (margin_x cfg + int col * card_width_px cfg, margin_y cfg + int row * card_height_px cfg))"

text \<open>
  The loop over the cells: the \<open>break\<close> of lines 403--406 stops it when the chunk is
  exhausted; a card that \<open>resize_card\<close> could not produce leaves its cell blank.
\<close>

fun place_cards :: "backend \<Rightarrow> config \<Rightarrow> ('p \<Rightarrow> image option) \<Rightarrow> (nat \<times> nat) list \<Rightarrow> 'p list \<Rightarrow> sheet_op list" where
  "place_cards be cfg load [] ps = []"
| "place_cards be cfg load (rc # rcs) [] = []"
| "place_cards be cfg load (rc # rcs) (p # ps) =
     (case resize_card be cfg load p of
        None \<Rightarrow> []
      | Some card_img \<Rightarrow> [case cell_origin cfg rc of (x, y) \<Rightarrow> Paste card_img x y])
     @ place_cards be cfg load rcs ps"

definition cut_lines :: "config \<Rightarrow> sheet_op list" where
  "cut_lines cfg =
     map (\<lambda>col_idx. VLine (margin_x cfg + int col_idx * card_width_px cfg - line_width cfg div 2)) [1..<3] @
     map (\<lambda>row_idx. HLine (margin_y cfg + int row_idx * card_height_px cfg - line_width cfg div 2)) [1..<3]"

definition create_printable_sheet :: "backend \<Rightarrow> config \<Rightarrow> ('p \<Rightarrow> image option) \<Rightarrow> 'p list \<Rightarrow> sheet_op list" where
  "create_printable_sheet be cfg load chunk = place_cards be cfg load grid_cells chunk @ cut_lines cfg"

text \<open>
  The layout a sheet promises, as an abstract specification: the \<open>i\<close>-th path of the
  chunk, for \<open>i < 9\<close>, occupies cell \<open>i\<close> exactly when its card renders.
\<close>

definition sheet_layout :: "backend \<Rightarrow> config \<Rightarrow> ('p \<Rightarrow> image option) \<Rightarrow> 'p list \<Rightarrow> (nat \<times> image) list" where
  "sheet_layout be cfg load chunk =
     concat (map (\<lambda>i. case resize_card be cfg load (chunk ! i) of None \<Rightarrow> [] | Some c \<Rightarrow> [(i, c)])
                 [0..<min 9 (length chunk)])"

subsection \<open>The batch driver\<close>

datatype 'p batch_outcome = No_images | Too_few nat | No_full_sheet nat | Sheets "'p list list" "'p list"

definition batch_plan :: "'p list \<Rightarrow> 'p batch_outcome" where
  "batch_plan all_image_files =
     (let num_total_images = length all_image_files in
      if num_total_images = 0 then No_images
      else if num_total_images < 9 then Too_few num_total_images
      else
        let num_full = (num_total_images div 9) * 9 in
        if num_full = 0 then No_full_sheet num_total_images
        else Sheets (map (\<lambda>k. take 9 (drop (9 * k) all_image_files)) [0..<num_full div 9])
               (drop num_full all_image_files))"

subsection \<open>Facts about the cell loop\<close>

lemma grid_cells_eq:
  "grid_cells = [(0, 0), (0, 1), (0, 2), (1, 0), (1, 1), (1, 2), (2, 0), (2, 1), (2, 2)]"
  by (simp add: grid_cells_def upt_rec)

lemma grid_cells_nth:
  assumes "i < 9" shows "grid_cells ! i = (i div 3, i mod 3)"
proof -
  have "i = 0 \<or> i = 1 \<or> i = 2 \<or> i = 3 \<or> i = 4 \<or> i = 5 \<or> i = 6 \<or> i = 7 \<or> i = 8"
    using assms by linarith
  then show ?thesis by (elim disjE) (simp_all add: grid_cells_eq)
qed

lemma length_grid_cells [simp]: "length grid_cells = 9"
  by (simp add: grid_cells_eq)

lemma place_cards_Paste:
  "Paste c x y \<in> set (place_cards be cfg load rcs ps) \<Longrightarrow>
   \<exists>i < min (length rcs) (length ps).
      resize_card be cfg load (ps ! i) = Some c \<and> cell_origin cfg (rcs ! i) = (x, y)"
proof (induction be cfg load rcs ps rule: place_cards.induct)
  case (3 be cfg load rc rcs p ps)
  show ?case
  proof (cases "Paste c x y \<in> set (place_cards be cfg load rcs ps)")
    case True
    then obtain i where "i < min (length rcs) (length ps)"
      "resize_card be cfg load (ps ! i) = Some c" "cell_origin cfg (rcs ! i) = (x, y)"
      using "3.IH" by blast
    then show ?thesis by (intro exI [of _ "Suc i"]) simp
  next
    case False
    obtain x' y' where co: "cell_origin cfg rc = (x', y')" by (cases "cell_origin cfg rc")
    from "3.prems" False have "Paste c x y \<in> set (case resize_card be cfg load p of
        None \<Rightarrow> [] | Some card_img \<Rightarrow> [Paste card_img x' y'])"
      by (simp add: co)
    then have "resize_card be cfg load p = Some c" "x = x'" "y = y'"
      by (auto split: option.splits)
    with co show ?thesis by (intro exI [of _ 0]) simp
  qed
qed simp_all

lemma length_place_cards:
  "length (place_cards be cfg load rcs ps) =
     length (filter (\<lambda>p. resize_card be cfg load p \<noteq> None) (take (length rcs) ps))"
  by (induction be cfg load rcs ps rule: place_cards.induct) (auto split: option.splits)

lemma cut_lines_no_Paste: "Paste c x y \<notin> set (cut_lines cfg)"
  by (auto simp: cut_lines_def)

lemma take_drop_chunks:
  "concat (map (\<lambda>k. take m (drop (m * k) xs)) [0..<n]) = take (m * n) xs"
proof (induction n)
  case 0
  then show ?case by simp
next
  case (Suc n)
  have "take (m * n) xs @ take m (drop (m * n) xs) = take (m * n + m) xs"
    by (simp add: take_add)
  with Suc show ?case by (simp add: add.commute)
qed

lemma batch_plan_Sheets:
  "batch_plan fs = Sheets chunks left \<longleftrightarrow>
     9 \<le> length fs \<and> chunks = map (\<lambda>k. take 9 (drop (9 * k) fs)) [0..<length fs div 9] \<and>
     left = drop (length fs div 9 * 9) fs"
  by (auto simp: batch_plan_def Let_def)

lemma batch_plan_concat:
  assumes "batch_plan fs = Sheets chunks left" shows "concat chunks @ left = fs"
proof -
  from assms have ch: "chunks = map (\<lambda>k. take 9 (drop (9 * k) fs)) [0..<length fs div 9]"
    and l: "left = drop (length fs div 9 * 9) fs"
    by (simp_all add: batch_plan_Sheets)
  have "concat chunks = take (9 * (length fs div 9)) fs"
    by (simp add: ch take_drop_chunks)
  then show ?thesis by (simp add: l mult.commute)
qed

lemma batch_plan_chunk_length:
  assumes "batch_plan fs = Sheets chunks left" shows "list_all (\<lambda>c. length c = 9) chunks"
proof -
  from assms have ch: "chunks = map (\<lambda>k. take 9 (drop (9 * k) fs)) [0..<length fs div 9]"
    by (simp add: batch_plan_Sheets)
  have "9 * k + 9 \<le> length fs" if "k < length fs div 9" for k
  proof -
    from that have "9 * Suc k \<le> 9 * (length fs div 9)" by simp
    moreover have "9 * (length fs div 9) \<le> length fs" by simp
    ultimately show ?thesis by simp
  qed
  then show ?thesis by (auto simp: ch list_all_iff)
qed

text \<open>
  C18. Card placement: every card pasted on a sheet is the rendered card of the
  \<open>i\<close>-th path of the chunk, for some \<open>i < min 9 (length chunk)\<close>, and it is
  pasted at the origin of cell \<open>(i div 3, i mod 3)\<close>: \<open>(MARGIN_X + (i mod 3) *
  CARD_WIDTH_PX, MARGIN_Y + (i div 3) * CARD_HEIGHT_PX)\<close>.
\<close>

theorem sheet_paste_position:
  assumes "Paste c x y \<in> set (create_printable_sheet be cfg load chunk)"
  shows "\<exists>i < min 9 (length chunk). resize_card be cfg load (chunk ! i) = Some c \<and>
           x = margin_x cfg + int (i mod 3) * card_width_px cfg \<and>
           y = margin_y cfg + int (i div 3) * card_height_px cfg"
proof -
  from assms have "Paste c x y \<in> set (place_cards be cfg load grid_cells chunk)"
    by (auto simp: create_printable_sheet_def cut_lines_no_Paste)
  then obtain i where i: "i < min 9 (length chunk)" "resize_card be cfg load (chunk ! i) = Some c"
    "cell_origin cfg (grid_cells ! i) = (x, y)"
    using place_cards_Paste by fastforce
  then show ?thesis by (auto simp: grid_cells_nth cell_origin_def)
qed

theorem sheet_paste_position_witness:
  "create_printable_sheet nearest_backend proxify_config (\<lambda>p::nat. Some (pil_new 10 10 transparent)) [0] =
     [Paste (the (resize_card nearest_backend proxify_config (\<lambda>p::nat. Some (pil_new 10 10 transparent)) 0)) 600 300,
      VLine 3598, VLine 6598, HLine 4498, HLine 8698] \<and>
   (\<exists>i < min 9 (length [0::nat]). 600 = margin_x proxify_config + int (i mod 3) * card_width_px proxify_config)"
proof -
  obtain r where r: "resize_card_image nearest_backend proxify_config (pil_new 10 10 transparent) = Inr r"
    using resize_card_image_Inr by blast
  then have rc: "resize_card nearest_backend proxify_config (\<lambda>p::nat. Some (pil_new 10 10 transparent)) 0 = Some r"
    by (simp add: resize_card_def)
  have sheet: "create_printable_sheet nearest_backend proxify_config (\<lambda>p::nat. Some (pil_new 10 10 transparent)) [0] =
     [Paste r 600 300, VLine 3598, VLine 6598, HLine 4498, HLine 8698]"
    using rc proxify_config_card proxify_config_page proxify_config_rest
    by (simp add: create_printable_sheet_def grid_cells_eq cell_origin_def cut_lines_def upt_rec)
  have "Paste r 600 300 \<in> set (create_printable_sheet nearest_backend proxify_config
      (\<lambda>p::nat. Some (pil_new 10 10 transparent)) [0])"
    by (simp add: sheet)
  from sheet_paste_position [OF this] have "\<exists>i < min 9 (length [0::nat]).
      600 = margin_x proxify_config + int (i mod 3) * card_width_px proxify_config" by blast
  with sheet rc show ?thesis by simp
qed

text \<open>
  C20. The nine cells do not overlap: for two different cells of the grid and positive
  card sizes, the card rectangles at their origins are disjoint.
\<close>

theorem grid_cells_disjoint:
  assumes "i < 9" and "j < 9" and "i \<noteq> j"
    and "0 < card_width_px cfg" and "0 < card_height_px cfg"
    and "cell_origin cfg (grid_cells ! i) = (xi, yi)" and "cell_origin cfg (grid_cells ! j) = (xj, yj)"
  shows "xi + card_width_px cfg \<le> xj \<or> xj + card_width_px cfg \<le> xi \<or>
         yi + card_height_px cfg \<le> yj \<or> yj + card_height_px cfg \<le> yi"
proof -
  let ?w = "card_width_px cfg" and ?h = "card_height_px cfg"
  have xi: "xi = margin_x cfg + int (i mod 3) * ?w" and yi: "yi = margin_y cfg + int (i div 3) * ?h"
    and xj: "xj = margin_x cfg + int (j mod 3) * ?w" and yj: "yj = margin_y cfg + int (j div 3) * ?h"
    using assms(1,2,6,7) by (auto simp: grid_cells_nth cell_origin_def)
  have "i mod 3 \<noteq> j mod 3 \<or> i div 3 \<noteq> j div 3"
    using assms(3) by (metis div_mult_mod_eq)
  then show ?thesis
  proof
    assume "i mod 3 \<noteq> j mod 3"
    then have "int (i mod 3) + 1 \<le> int (j mod 3) \<or> int (j mod 3) + 1 \<le> int (i mod 3)" by linarith
    then have "int (i mod 3) * ?w + ?w \<le> int (j mod 3) * ?w \<or> int (j mod 3) * ?w + ?w \<le> int (i mod 3) * ?w"
      using assms(4) by (metis distrib_right mult_1 mult_right_mono order_less_imp_le)
    then show ?thesis by (auto simp: xi xj)
  next
    assume "i div 3 \<noteq> j div 3"
    then have "int (i div 3) + 1 \<le> int (j div 3) \<or> int (j div 3) + 1 \<le> int (i div 3)" by linarith
    then have "int (i div 3) * ?h + ?h \<le> int (j div 3) * ?h \<or> int (j div 3) * ?h + ?h \<le> int (i div 3) * ?h"
      using assms(5) by (metis distrib_right mult_1 mult_right_mono order_less_imp_le)
    then show ?thesis by (auto simp: yi yj)
  qed
qed

theorem grid_cells_disjoint_witness:
  "cell_origin proxify_config (grid_cells ! 1) = (3600, 300) \<and> cell_origin proxify_config (grid_cells ! 4) = (3600, 4500) \<and>
   (3600 + card_width_px proxify_config \<le> 3600 \<or> 3600 + card_width_px proxify_config \<le> 3600 \<or>
    300 + card_height_px proxify_config \<le> 4500 \<or> 4500 + card_height_px proxify_config \<le> 300)"
proof -
  have a: "cell_origin proxify_config (grid_cells ! 1) = (3600, 300)"
    and b: "cell_origin proxify_config (grid_cells ! 4) = (3600, 4500)"
    using proxify_config_card proxify_config_page by (simp_all add: grid_cells_eq cell_origin_def)
  have w: "0 < card_width_px proxify_config" "0 < card_height_px proxify_config"
    using proxify_config_card by simp_all
  from grid_cells_disjoint [of 1 4 proxify_config, OF _ _ _ w a b] a b show ?thesis by simp
qed

lemma resize_card_Some_iff: "resize_card be cfg load p \<noteq> None \<longleftrightarrow> load p \<noteq> None"
proof (cases "load p")
  case (Some im)
  obtain r where "resize_card_image be cfg im = Inr r" using resize_card_image_Inr by blast
  with Some show ?thesis by (simp add: resize_card_def)
qed (simp add: resize_card_def)

lemma place_cards_all_Paste: "list_all is_paste (place_cards be cfg load rcs ps)"
  by (induction be cfg load rcs ps rule: place_cards.induct) (auto split: option.splits prod.splits)

text \<open>
  C21. The grid is centred on the page and lies on it: when the margins are those of
  lines 56--57 and the three-by-three grid fits the paper, the right margin equals the
  left one or exceeds it by one pixel (the remainder of \<open>// 2\<close>), likewise below and
  above, and every card pasted at a cell origin lies inside the page.
\<close>

theorem sheet_grid_centred:
  assumes m: "grid_margins (paper_width_px cfg) (paper_height_px cfg) (card_width_px cfg) (card_height_px cfg) =
                (margin_x cfg, margin_y cfg)"
    and fw: "3 * card_width_px cfg \<le> paper_width_px cfg" and fh: "3 * card_height_px cfg \<le> paper_height_px cfg"
    and cw: "0 < card_width_px cfg" and ch: "0 < card_height_px cfg"
    and i: "i < 9" and o: "cell_origin cfg (grid_cells ! i) = (x, y)"
  shows "margin_x cfg \<le> paper_width_px cfg - 3 * card_width_px cfg - margin_x cfg \<and>
         paper_width_px cfg - 3 * card_width_px cfg - margin_x cfg \<le> margin_x cfg + 1 \<and>
         margin_y cfg \<le> paper_height_px cfg - 3 * card_height_px cfg - margin_y cfg \<and>
         paper_height_px cfg - 3 * card_height_px cfg - margin_y cfg \<le> margin_y cfg + 1 \<and>
         0 \<le> x \<and> x + card_width_px cfg \<le> paper_width_px cfg \<and>
         0 \<le> y \<and> y + card_height_px cfg \<le> paper_height_px cfg"
proof -
  define dx where "dx = paper_width_px cfg - 3 * card_width_px cfg"
  define dy where "dy = paper_height_px cfg - 3 * card_height_px cfg"
  have mx: "margin_x cfg = dx div 2" and my: "margin_y cfg = dy div 2"
    using m fw fh by (auto simp: grid_margins_def dx_def dy_def Let_def split: if_splits)
  have "0 \<le> dx" "0 \<le> dy" using fw fh by (simp_all add: dx_def dy_def)
  then have cx: "dx div 2 \<le> dx - dx div 2 \<and> dx - dx div 2 \<le> dx div 2 + 1 \<and> 0 \<le> dx div 2 \<and> dx div 2 \<le> dx"
    and cy: "dy div 2 \<le> dy - dy div 2 \<and> dy - dy div 2 \<le> dy div 2 + 1 \<and> 0 \<le> dy div 2 \<and> dy div 2 \<le> dy"
    by presburger+
  have x: "x = margin_x cfg + int (i mod 3) * card_width_px cfg"
    and y: "y = margin_y cfg + int (i div 3) * card_height_px cfg"
    using i o by (auto simp: grid_cells_nth cell_origin_def)
  have "int (i mod 3) \<le> 2" "int (i div 3) \<le> 2" using i by simp_all
  then have "int (i mod 3) * card_width_px cfg \<le> 2 * card_width_px cfg"
    and "int (i div 3) * card_height_px cfg \<le> 2 * card_height_px cfg"
    using cw ch by (simp_all add: mult_right_mono)
  moreover have "0 \<le> int (i mod 3) * card_width_px cfg" "0 \<le> int (i div 3) * card_height_px cfg"
    using cw ch by simp_all
  ultimately show ?thesis using cx cy unfolding x y mx my dx_def dy_def by linarith
qed

theorem sheet_grid_centred_witness:
  "grid_margins (paper_width_px proxify_config) (paper_height_px proxify_config)
     (card_width_px proxify_config) (card_height_px proxify_config) = (margin_x proxify_config, margin_y proxify_config) \<and>
   cell_origin proxify_config (grid_cells ! 8) = (6600, 8700) \<and>
   margin_x proxify_config \<le> paper_width_px proxify_config - 3 * card_width_px proxify_config - margin_x proxify_config \<and>
   8700 + card_height_px proxify_config \<le> paper_height_px proxify_config"
proof -
  have m: "grid_margins (paper_width_px proxify_config) (paper_height_px proxify_config)
     (card_width_px proxify_config) (card_height_px proxify_config) = (margin_x proxify_config, margin_y proxify_config)"
    using proxify_config_card proxify_config_page by (simp add: grid_margins_def)
  have o: "cell_origin proxify_config (grid_cells ! 8) = (6600, 8700)"
    using proxify_config_card proxify_config_page by (simp add: grid_cells_eq cell_origin_def)
  have f: "3 * card_width_px proxify_config \<le> paper_width_px proxify_config"
    "3 * card_height_px proxify_config \<le> paper_height_px proxify_config"
    "0 < card_width_px proxify_config" "0 < card_height_px proxify_config"
    using proxify_config_card proxify_config_page by simp_all
  from sheet_grid_centred [OF m f _ o] m o show ?thesis by simp
qed

text \<open>
  C19. Every loadable file among the first nine of a chunk is pasted, and nothing
  else is: the sheet holds as many cards as the chunk has loadable paths in its first
  nine entries, so a file that fails to load leaves exactly one cell blank.
\<close>

theorem sheet_paste_count:
  "length (filter is_paste (create_printable_sheet be cfg load chunk)) =
     length (filter (\<lambda>p. load p \<noteq> None) (take 9 chunk))"
proof -
  have "filter is_paste (place_cards be cfg load grid_cells chunk) = place_cards be cfg load grid_cells chunk"
    using place_cards_all_Paste by (simp add: filter_id_conv list_all_iff)
  moreover have "filter is_paste (cut_lines cfg) = []"
    by (simp add: cut_lines_def filter_empty_conv)
  moreover have eq: "(\<lambda>p. resize_card be cfg load p \<noteq> None) = (\<lambda>p. load p \<noteq> None)"
    by (rule ext, rule resize_card_Some_iff)
  ultimately have "length (filter is_paste (create_printable_sheet be cfg load chunk)) =
      length (filter (\<lambda>p. resize_card be cfg load p \<noteq> None) (take 9 chunk))"
    by (metis create_printable_sheet_def filter_append length_append length_place_cards length_grid_cells list.size(3) add_0_right)
  then show ?thesis by (simp only: eq)
qed

text \<open>
  C22. Batch partition: when the driver makes sheets, the chunks are at least one,
  each of exactly nine files, and the chunks followed by the leftovers are the sorted
  file list; the leftovers are the last \<open>n mod 9\<close> files, so no file is dropped and
  no partial sheet is made.
\<close>

theorem batch_plan_partition:
  assumes "batch_plan fs = Sheets chunks left"
  shows "concat chunks @ left = fs \<and> list_all (\<lambda>c. length c = 9) chunks \<and>
         length chunks = length fs div 9 \<and> chunks \<noteq> [] \<and> length left = length fs mod 9"
proof -
  from assms have n: "9 \<le> length fs"
    and ch: "chunks = map (\<lambda>k. take 9 (drop (9 * k) fs)) [0..<length fs div 9]"
    and l: "left = drop (length fs div 9 * 9) fs"
    by (simp_all add: batch_plan_Sheets)
  have cat: "concat chunks @ left = fs" using assms by (rule batch_plan_concat)
  have "list_all (\<lambda>c. length c = 9) chunks" using assms by (rule batch_plan_chunk_length)
  moreover have "length left = length fs mod 9"
    by (simp add: l minus_div_mult_eq_mod)
  moreover have "chunks \<noteq> []" using n by (simp add: ch)
  ultimately show ?thesis using cat by (simp add: ch)
qed

theorem batch_plan_partition_witness:
  "concat [[0..<9], [9..<18]] @ [18, 19] = [0..<20::nat] \<and> list_all (\<lambda>c. length c = 9) [[0..<9], [9..<18::nat]] \<and>
   length [[0..<9], [9..<18::nat]] = length [0..<20::nat] div 9 \<and> [[0..<9], [9..<18::nat]] \<noteq> [] \<and>
   length [18, 19::nat] = length [0..<20::nat] mod 9"
proof -
  have "batch_plan [0..<20::nat] = Sheets [[0..<9], [9..<18]] [18, 19]"
    by code_simp
  from batch_plan_partition [OF this] show ?thesis .
qed

text \<open>
  C23. The driver makes sheets exactly when there are at least nine images; with
  none it reports that no image was found and with one to eight it reports their
  number. Its own guard against zero full sheets (lines 472--474) is never taken.
\<close>

theorem batch_plan_outcomes:
  "(batch_plan fs = No_images \<longleftrightarrow> fs = []) \<and>
   (batch_plan fs = Too_few n \<longleftrightarrow> 0 < length fs \<and> length fs < 9 \<and> n = length fs) \<and>
   batch_plan fs \<noteq> No_full_sheet m \<and>
   ((\<exists>chunks left. batch_plan fs = Sheets chunks left) \<longleftrightarrow> 9 \<le> length fs)"
  by (auto simp: batch_plan_def Let_def)

lemma place_cards_eq:
  "place_cards be cfg load rcs ps =
     concat (map (\<lambda>i. case resize_card be cfg load (ps ! i) of
                        None \<Rightarrow> []
                      | Some c \<Rightarrow> [case cell_origin cfg (rcs ! i) of (x, y) \<Rightarrow> Paste c x y])
                 [0..<min (length rcs) (length ps)])"
  by (induction be cfg load rcs ps rule: place_cards.induct) (simp_all add: map_upt_Suc del: upt_Suc cong: option.case_cong)

text \<open>
  C34. The composed sheet refines its abstract layout: the pastes the function issues,
  in order, are exactly the cards of \<open>sheet_layout\<close>, each at the origin of its cell
  \<open>(i div 3, i mod 3)\<close>.
\<close>

theorem create_printable_sheet_refines_layout:
  "filter is_paste (create_printable_sheet be cfg load chunk) =
     map (\<lambda>(i, c). Paste c (margin_x cfg + int (i mod 3) * card_width_px cfg)
                           (margin_y cfg + int (i div 3) * card_height_px cfg))
         (sheet_layout be cfg load chunk)"
proof -
  have "filter is_paste (place_cards be cfg load grid_cells chunk) = place_cards be cfg load grid_cells chunk"
    using place_cards_all_Paste by (simp add: filter_id_conv list_all_iff)
  moreover have "filter is_paste (cut_lines cfg) = []"
    by (simp add: cut_lines_def filter_empty_conv)
  moreover have "place_cards be cfg load grid_cells chunk =
     map (\<lambda>(i, c). Paste c (margin_x cfg + int (i mod 3) * card_width_px cfg)
                           (margin_y cfg + int (i div 3) * card_height_px cfg))
         (sheet_layout be cfg load chunk)"
    unfolding place_cards_eq sheet_layout_def map_concat length_grid_cells
    by (intro arg_cong [where f = concat] map_cong refl)
       (auto simp: grid_cells_nth cell_origin_def split: option.split)
  ultimately show ?thesis by (simp add: create_printable_sheet_def)
qed

lemma resize_card_Some_size:
  assumes "backend_ok be" and "resize_card be cfg load p = Some r"
  shows "img_size r = (nat (card_width_px cfg), nat (card_height_px cfg))"
  using assms
  by (auto simp: resize_card_def resize_card_image_def enhance_size fit_to_card_size
           split: option.splits sum.splits if_splits)

text \<open>
  C37. Every card on every sheet has the configured card size: with a backend whose
  resize yields the requested size, each image pasted by \<open>create_printable_sheet\<close>
  is exactly \<open>CARD_WIDTH_PX \<times> CARD_HEIGHT_PX\<close>, so the cells of the grid are filled
  without gaps or overlaps.
\<close>

theorem sheet_cards_card_size:
  assumes "backend_ok be" and "Paste c x y \<in> set (create_printable_sheet be cfg load chunk)"
  shows "img_size c = (nat (card_width_px cfg), nat (card_height_px cfg))"
proof -
  from assms(2) have "Paste c x y \<in> set (place_cards be cfg load grid_cells chunk)"
    by (auto simp: create_printable_sheet_def cut_lines_no_Paste)
  then obtain i where "resize_card be cfg load (chunk ! i) = Some c"
    using place_cards_Paste by blast
  with assms(1) show ?thesis by (rule resize_card_Some_size)
qed

theorem sheet_cards_card_size_witness:
  "backend_ok nearest_backend \<and>
   (\<exists>c. Paste c 600 300 \<in> set (create_printable_sheet nearest_backend proxify_config
            (\<lambda>p::nat. Some (pil_new 10 10 transparent)) [0]) \<and> img_size c = (3000, 4200))"
proof -
  obtain r where "resize_card_image nearest_backend proxify_config (pil_new 10 10 transparent) = Inr r"
    using resize_card_image_Inr by blast
  then have rc: "resize_card nearest_backend proxify_config (\<lambda>p::nat. Some (pil_new 10 10 transparent)) 0 = Some r"
    by (simp add: resize_card_def)
  have p: "Paste r 600 300 \<in> set (create_printable_sheet nearest_backend proxify_config
      (\<lambda>p::nat. Some (pil_new 10 10 transparent)) [0])"
    using rc proxify_config_card proxify_config_page
    by (simp add: create_printable_sheet_def grid_cells_eq cell_origin_def)
  have "img_size r = (nat (card_width_px proxify_config), nat (card_height_px proxify_config))"
    using sheet_cards_card_size [OF nearest_backend_ok p] .
  then have "img_size r = (3000, 4200)" using proxify_config_card by simp
  with p nearest_backend_ok show ?thesis by blast
qed

end
