(* ===== verification/Names.thy ===== *)
theory Names
  imports Sheet "HOL-Library.Sublist"
begin

text \<open>
  File names. \<open>sanitize_filename_component\<close> (\<open>src/proxify.py\<close> lines 424--431)
  turns a path into a file-name fragment: \<open>os.path.basename\<close>, the root of
  \<open>os.path.splitext\<close>, each run of forbidden characters replaced by one underscore,
  runs of underscores collapsed, underscores stripped at both ends, and \<open>file\<close> for an
  empty result. The batch driver names each sheet after the sanitized first and last
  file of its chunk and its number (line 485). Strings are lists of 8-bit
  characters, so the model covers names of code points below 256 (Latin-1); the
  whitespace class and \<open>str.lower\<close> are Python's on that range.
\<close>

subsection \<open>Library functions the sanitizer calls\<close>

text \<open>\<open>str.rfind\<close>: the last index of a character, \<open>-1\<close> when it does not occur.\<close>

definition rfind :: "char \<Rightarrow> string \<Rightarrow> int" where
  "rfind c p = (case find (\<lambda>i. p ! i = c) (rev [0..<length p]) of None \<Rightarrow> -1 | Some i \<Rightarrow> int i)"

text \<open>\<open>posixpath.basename\<close>: the part after the last slash.\<close>

definition basename :: "string \<Rightarrow> string" where
  "basename p = drop (nat (rfind CHR ''/'' p + 1)) p"

text \<open>
  The root returned by \<open>posixpath.splitext\<close> (\<open>genericpath._splitext\<close>): the path up to
  its last dot, provided the dot follows the last slash and is preceded, within the
  last component, by a character other than a dot; otherwise the whole path.
\<close>

definition splitext_root :: "string \<Rightarrow> string" where
  "splitext_root p =
     (let sepIndex = rfind CHR ''/'' p; dotIndex = rfind CHR ''.'' p in
      if sepIndex < dotIndex \<and> list_ex (\<lambda>i. p ! i \<noteq> CHR ''.'') [nat (sepIndex + 1)..<nat dotIndex]
      then take (nat dotIndex) p else p)"

text \<open>Python's \<open>\s\<close> on code points below 256, i.e. \<open>str.isspace\<close>.\<close>

definition is_space :: "char \<Rightarrow> bool" where
  "is_space c = (of_char c \<in> ({9, 10, 11, 12, 13, 28, 29, 30, 31, 32, 133, 160} :: nat set))"

text \<open>The character class \<open>[<>:"/\\|?*\s\.]\<close> of line 427.\<close>

definition is_invalid :: "char \<Rightarrow> bool" where
  "is_invalid c = (c \<in> {CHR ''<'', CHR ''>'', CHR '':'', CHR 0x22, CHR ''/'', CHR 0x5C, CHR ''|'',
                            CHR ''?'', CHR ''*'', CHR ''.''} \<or> is_space c)"

text \<open>
  \<open>re.sub(X + '+', '_', s)\<close> for a one-character class \<open>X\<close>: every maximal run of
  characters of the class becomes one underscore. The flag records whether the
  previous character belonged to a run.
\<close>

fun subst_runs :: "(char \<Rightarrow> bool) \<Rightarrow> bool \<Rightarrow> string \<Rightarrow> string" where
  "subst_runs P in_run [] = []"
| "subst_runs P in_run (c # cs) =
     (if P c then (if in_run then subst_runs P True cs else CHR ''_'' # subst_runs P True cs)
      else c # subst_runs P False cs)"

definition re_sub_runs :: "(char \<Rightarrow> bool) \<Rightarrow> string \<Rightarrow> string" where
  "re_sub_runs P s = subst_runs P False s"

text \<open>\<open>str.strip('_')\<close>.\<close>

definition strip_us :: "string \<Rightarrow> string" where
  "strip_us s = rev (dropWhile (\<lambda>c. c = CHR ''_'') (rev (dropWhile (\<lambda>c. c = CHR ''_'') s)))"

definition sanitize_filename_component :: "string \<Rightarrow> string" where
  "sanitize_filename_component name_component =
     (let name_component = splitext_root (basename name_component);
          sanitized = re_sub_runs is_invalid name_component;
          sanitized = re_sub_runs (\<lambda>c. c = CHR ''_'') sanitized;
          sanitized = strip_us sanitized
      in if sanitized \<noteq> [] then sanitized else ''file'')"

subsection \<open>Sheet names\<close>

text \<open>\<open>str\<close> on a natural number: its decimal digits.\<close>

fun nat_str :: "nat \<Rightarrow> string" where
  "nat_str n = (if n < 10 then [char_of (48 + n)] else nat_str (n div 10) @ [char_of (48 + n mod 10)])"

declare nat_str.simps [simp del]

definition is_digit :: "char \<Rightarrow> bool" where
  "is_digit c \<longleftrightarrow> 48 \<le> (of_char c :: nat) \<and> (of_char c :: nat) < 58"

text \<open>The value of a string of decimal digits (used to read a sheet number back).\<close>

definition digits_val :: "string \<Rightarrow> nat" where
  "digits_val s = foldl (\<lambda>acc c. 10 * acc + (of_char c - 48)) 0 s"

text \<open>
  Line 485: \<open>f"{first}_to_{last}_sheet_{num_sheets_created + 1}.png"\<close> with the
  sanitized first and last path of the chunk (lines 482--483).
\<close>

definition sheet_name :: "string \<Rightarrow> string \<Rightarrow> nat \<Rightarrow> string" where
  "sheet_name first_file last_file num_sheets_created =
     sanitize_filename_component first_file @ ''_to_'' @ sanitize_filename_component last_file @
     ''_sheet_'' @ nat_str (num_sheets_created + 1) @ ''.png''"

text \<open>A safe file-name fragment: what the sanitizer promises its callers.\<close>

definition safe_component :: "string \<Rightarrow> bool" where
  "safe_component r \<longleftrightarrow>
     r \<noteq> [] \<and> list_all (\<lambda>c. \<not> is_invalid c) r \<and> hd r \<noteq> CHR ''_'' \<and> last r \<noteq> CHR ''_'' \<and>
     \<not> sublist ''__'' r"

subsection \<open>Facts about the string operations\<close>

lemma rfind_ge: "-1 \<le> rfind c p"
  by (simp add: rfind_def split: option.split)

lemma rfind_notin: "c \<notin> set p \<Longrightarrow> rfind c p = -1"
  unfolding rfind_def by (subst find_rev_upt_None [THEN iffD2]) auto

lemma basename_id: "CHR ''/'' \<notin> set p \<Longrightarrow> basename p = p"
  by (simp add: basename_def rfind_notin)

lemma splitext_root_id: "CHR ''.'' \<notin> set p \<Longrightarrow> splitext_root p = p"
  using rfind_ge [of "CHR ''/''" p] by (simp add: splitext_root_def rfind_notin Let_def)

lemma sublist_us_Cons:
  "sublist ''__'' (x # xs) \<longleftrightarrow> (x = CHR ''_'' \<and> xs \<noteq> [] \<and> hd xs = CHR ''_'') \<or> sublist ''__'' xs"
  by (cases xs) (auto simp: sublist_Cons_right)

lemma subst_runs_id: "list_all (\<lambda>c. \<not> P c) s \<Longrightarrow> subst_runs P b s = s"
  by (induction P b s rule: subst_runs.induct) simp_all

lemma subst_runs_valid: "\<not> P CHR ''_'' \<Longrightarrow> list_all (\<lambda>c. \<not> P c) (subst_runs P b s)"
  by (induction P b s rule: subst_runs.induct) simp_all

lemma subst_runs_set: "set (subst_runs P b s) \<subseteq> insert CHR ''_'' (set s)"
  by (induction P b s rule: subst_runs.induct) auto

lemma subst_us_no_double:
  "\<not> sublist ''__'' (subst_runs (\<lambda>c. c = CHR ''_'') b s) \<and>
   (b \<longrightarrow> subst_runs (\<lambda>c. c = CHR ''_'') b s = [] \<or> hd (subst_runs (\<lambda>c. c = CHR ''_'') b s) \<noteq> CHR ''_'')"
  by (induction "\<lambda>c::char. c = CHR ''_''" b s rule: subst_runs.induct) (auto simp: sublist_us_Cons)

lemma subst_us_id:
  "\<not> sublist ''__'' s \<Longrightarrow> (b \<longrightarrow> s = [] \<or> hd s \<noteq> CHR ''_'') \<Longrightarrow>
   subst_runs (\<lambda>c. c = CHR ''_'') b s = s"
  by (induction "\<lambda>c::char. c = CHR ''_''" b s rule: subst_runs.induct) (auto simp: sublist_us_Cons)

lemma last_dropWhile: "dropWhile P xs \<noteq> [] \<Longrightarrow> last (dropWhile P xs) = last xs"
  by (induction xs) auto

lemma strip_us_sublist: "sublist (strip_us s) s"
proof -
  have "sublist (dropWhile (\<lambda>c. c = CHR ''_'') s) s"
    by (metis sublist_append_leftI takeWhile_dropWhile_id)
  moreover have "sublist (rev (dropWhile (\<lambda>c. c = CHR ''_'') (rev t))) t" for t :: string
    by (metis sublist_append_leftI sublist_rev takeWhile_dropWhile_id rev_rev_ident)
  ultimately show ?thesis unfolding strip_us_def by (meson sublist_order.dual_order.trans)
qed

lemma strip_us_ends:
  "strip_us s = [] \<or> (hd (strip_us s) \<noteq> CHR ''_'' \<and> last (strip_us s) \<noteq> CHR ''_'')"
proof -
  define Q where "Q = (\<lambda>c. c = CHR ''_'')"
  define t where "t = dropWhile Q s"
  define X where "X = dropWhile Q (rev t)"
  have st: "strip_us s = rev X" by (simp add: strip_us_def X_def t_def Q_def)
  show ?thesis
  proof (cases "X = []")
    case False
    have "\<not> Q (hd X)" using False unfolding X_def by (rule hd_dropWhile)
    then have l: "last (strip_us s) \<noteq> CHR ''_''" by (simp add: st last_rev Q_def)
    have "rev t \<noteq> []" using False by (auto simp: X_def)
    then have "t \<noteq> []" by simp
    then have "\<not> Q (hd t)" unfolding t_def by (rule hd_dropWhile)
    moreover have "last X = last (rev t)" using False unfolding X_def by (rule last_dropWhile)
    ultimately have "hd (strip_us s) \<noteq> CHR ''_''"
      using \<open>t \<noteq> []\<close> by (simp add: st hd_rev last_rev Q_def)
    with l show ?thesis by simp
  qed (simp add: st)
qed

lemma rev_last_butlast: "xs \<noteq> [] \<Longrightarrow> rev xs = last xs # rev (butlast xs)"
  by (induction xs) auto

lemma strip_us_id: "s = [] \<or> (hd s \<noteq> CHR ''_'' \<and> last s \<noteq> CHR ''_'') \<Longrightarrow> strip_us s = s"
proof (cases s)
  case (Cons c cs)
  assume a: "s = [] \<or> (hd s \<noteq> CHR ''_'' \<and> last s \<noteq> CHR ''_'')"
  then have "dropWhile (\<lambda>c. c = CHR ''_'') s = s" using Cons by auto
  moreover have r: "rev s = last s # rev (butlast s)"
    using Cons by (simp add: rev_last_butlast)
  have "last s \<noteq> CHR ''_''" using a Cons by simp
  then have "dropWhile (\<lambda>c. c = CHR ''_'') (rev s) = rev s" unfolding r by simp
  ultimately show ?thesis by (simp add: strip_us_def)
qed (simp add: strip_us_def)

lemma underscore_valid [simp]: "\<not> is_invalid CHR ''_''"
  by (simp add: is_invalid_def is_space_def)

lemma sanitize_safe_component: "safe_component (sanitize_filename_component n)"
proof -
  define r1 where "r1 = re_sub_runs is_invalid (splitext_root (basename n))"
  define r2 where "r2 = re_sub_runs (\<lambda>c. c = CHR ''_'') r1"
  define r3 where "r3 = strip_us r2"
  have v1: "list_all (\<lambda>c. \<not> is_invalid c) r1"
    unfolding r1_def re_sub_runs_def by (rule subst_runs_valid) simp
  have "set r2 \<subseteq> insert CHR ''_'' (set r1)"
    unfolding r2_def re_sub_runs_def by (rule subst_runs_set)
  with v1 have v2: "list_all (\<lambda>c. \<not> is_invalid c) r2" by (auto simp: list_all_iff)
  have d2: "\<not> sublist ''__'' r2"
    using subst_us_no_double unfolding r2_def re_sub_runs_def by blast
  have "sublist r3 r2" unfolding r3_def by (rule strip_us_sublist)
  then have "set r3 \<subseteq> set r2" and d3: "\<not> sublist ''__'' r3"
    using d2 by (auto dest: set_mono_sublist sublist_order.order_trans)
  with v2 have v3: "list_all (\<lambda>c. \<not> is_invalid c) r3" by (auto simp: list_all_iff)
  have e3: "r3 = [] \<or> (hd r3 \<noteq> CHR ''_'' \<and> last r3 \<noteq> CHR ''_'')"
    unfolding r3_def by (rule strip_us_ends)
  have s: "sanitize_filename_component n = (if r3 \<noteq> [] then r3 else ''file'')"
    by (simp add: sanitize_filename_component_def r1_def r2_def r3_def)
  have "safe_component ''file''"
    by (simp add: safe_component_def is_invalid_def is_space_def sublist_us_Cons)
  with v3 d3 e3 show ?thesis by (cases "r3 = []") (simp_all add: s safe_component_def)
qed

lemma safe_component_fixed:
  assumes "safe_component r" shows "sanitize_filename_component r = r"
proof -
  have v: "list_all (\<lambda>c. \<not> is_invalid c) r" and ne: "r \<noteq> []" and d: "\<not> sublist ''__'' r"
    and e: "hd r \<noteq> CHR ''_'' \<and> last r \<noteq> CHR ''_''"
    using assms by (simp_all add: safe_component_def)
  have "CHR ''/'' \<notin> set r" "CHR ''.'' \<notin> set r"
    using v by (auto simp: list_all_iff is_invalid_def)
  then have "splitext_root (basename r) = r" by (simp add: basename_id splitext_root_id)
  moreover have "re_sub_runs is_invalid r = r" using v by (simp add: re_sub_runs_def subst_runs_id)
  moreover have "re_sub_runs (\<lambda>c. c = CHR ''_'') r = r" using d by (simp add: re_sub_runs_def subst_us_id)
  moreover have "strip_us r = r" using e by (simp add: strip_us_id)
  ultimately show ?thesis using ne by (simp add: sanitize_filename_component_def)
qed

text \<open>
  C24. The sanitized fragment is always safe in a file name: it is non-empty, holds no
  slash, backslash, dot, whitespace or other character of the forbidden class, does
  not begin or end with an underscore and has no two underscores in a row.
\<close>

theorem sanitize_filename_component_safe:
  "sanitize_filename_component n \<noteq> [] \<and>
   list_all (\<lambda>c. \<not> is_invalid c) (sanitize_filename_component n) \<and>
   hd (sanitize_filename_component n) \<noteq> CHR ''_'' \<and> last (sanitize_filename_component n) \<noteq> CHR ''_'' \<and>
   \<not> sublist ''__'' (sanitize_filename_component n)"
  using sanitize_safe_component [of n] by (simp add: safe_component_def)

text \<open>
  C25. Sanitizing is idempotent: a sanitized fragment passes through the sanitizer
  unchanged.
\<close>

theorem sanitize_filename_component_idempotent:
  "sanitize_filename_component (sanitize_filename_component n) = sanitize_filename_component n"
  by (rule safe_component_fixed [OF sanitize_safe_component])

lemma is_digit_char_of: "(d::nat) < 10 \<Longrightarrow> is_digit (char_of (48 + d))"
  by (simp add: is_digit_def of_char_of)

lemma nat_str_digits: "list_all is_digit (nat_str n)"
proof (induction n rule: nat_str.induct)
  case (1 n)
  then show ?case by (subst nat_str.simps) (simp add: is_digit_char_of)
qed

lemma digits_val_nat_str: "digits_val (nat_str n) = n"
proof (induction n rule: nat_str.induct)
  case (1 n)
  show ?case
  proof (cases "n < 10")
    case True
    then show ?thesis by (simp add: nat_str.simps digits_val_def of_char_of)
  next
    case False
    then have "digits_val (nat_str n) = 10 * digits_val (nat_str (n div 10)) + n mod 10"
      by (simp add: nat_str.simps [of n] digits_val_def of_char_of)
    with 1 False show ?thesis by simp
  qed
qed

lemma sheet_name_number:
  "takeWhile is_digit (drop 4 (rev (sheet_name a b k))) = rev (nat_str (k + 1))"
proof -
  have "drop 4 (rev (sheet_name a b k)) =
      rev (nat_str (k + 1)) @ rev (sanitize_filename_component a @ ''_to_'' @ sanitize_filename_component b @ ''_sheet_'')"
    by (simp add: sheet_name_def)
  then have eq: "drop 4 (rev (sheet_name a b k)) = rev (nat_str (k + 1)) @ CHR ''_'' #
      rev (sanitize_filename_component a @ ''_to_'' @ sanitize_filename_component b @ ''_sheet'')"
    by simp
  have "\<And>c. c \<in> set (rev (nat_str (k + 1))) \<Longrightarrow> is_digit c"
    using nat_str_digits [of "k + 1"] by (simp add: list_all_iff)
  moreover have "\<not> is_digit CHR ''_''" by (simp add: is_digit_def)
  ultimately show ?thesis unfolding eq by (subst takeWhile_append2) auto
qed

lemma sheet_name_inj: "sheet_name a b k = sheet_name a' b' k' \<Longrightarrow> k = k'"
proof -
  assume "sheet_name a b k = sheet_name a' b' k'"
  then have "rev (nat_str (k + 1)) = rev (nat_str (k' + 1))"
    using sheet_name_number [of a b k] sheet_name_number [of a' b' k'] by simp
  then have "digits_val (nat_str (k + 1)) = digits_val (nat_str (k' + 1))" by simp
  then show "k = k'" by (simp add: digits_val_nat_str)
qed

text \<open>
  C31. A sheet's number can be read back from its file name: the run of decimal digits
  before the \<open>.png\<close> extension is the number \<open>k + 1\<close> the loop gave it, whatever
  the sanitized first and last file names are.
\<close>

theorem sheet_name_number_roundtrip:
  "digits_val (rev (takeWhile is_digit (drop 4 (rev (sheet_name a b k))))) = k + 1"
  by (simp add: sheet_name_number digits_val_nat_str)

end
