(* ===== verification/Driver.thy ===== *)
theory Driver
  imports Names "HOL-Library.Char_ord" "HOL-Library.List_Lexorder" "HOL-Library.Multiset"
begin

text \<open>
  The batch driver, the \<open>__main__\<close> block of \<open>src/proxify.py\<close> (lines 452--490) after
  the prompts and directory checks: the image files of the input folder, selected by a
  case-insensitive extension test and sorted (\<open>all_image_files\<close>), the exits on too few
  images (\<open>batch_plan\<close> of \<open>Sheet\<close>), and the loop that names each chunk of nine and
  composes its sheet (\<open>proxify_main\<close>). The directory listing is a parameter, as is
  the image loader; strings are compared by code point, as Python compares them.
\<close>

text \<open>\<open>str.lower\<close> on code points below 256.\<close>

definition lower_char :: "char \<Rightarrow> char" where
  "lower_char c = (let n = (of_char c :: nat) in
     if (65 \<le> n \<and> n \<le> 90) \<or> (192 \<le> n \<and> n \<le> 222 \<and> n \<noteq> 215) then char_of (n + 32) else c)"

text \<open>\<open>str.endswith\<close>.\<close>

definition ends_with :: "string \<Rightarrow> string \<Rightarrow> bool" where
  "ends_with s e \<longleftrightarrow> length e \<le> length s \<and> drop (length s - length e) s = e"

definition image_exts :: "string list" where
  "image_exts = [''.png'', ''.jpg'', ''.jpeg'', ''.bmp'', ''.gif'', ''.tiff'']"

text \<open>The filter of line 455.\<close>

definition is_image_file :: "string \<Rightarrow> bool" where
  "is_image_file f \<longleftrightarrow> list_ex (ends_with (map lower_char f)) image_exts"

text \<open>\<open>posixpath.join\<close> of two components.\<close>

definition path_join :: "string \<Rightarrow> string \<Rightarrow> string" where
  "path_join a b =
     (if b \<noteq> [] \<and> hd b = CHR ''/'' then b
      else if a = [] \<or> last a = CHR ''/'' then a @ b
      else a @ ''/'' @ b)"

text \<open>Lines 452--456, for the directory listing \<open>listing\<close> of \<open>input_folder\<close>.\<close>

definition all_image_files :: "string \<Rightarrow> string list \<Rightarrow> string list" where
  "all_image_files input_folder listing =
     sort (map (path_join input_folder) (filter is_image_file listing))"

datatype run_result =
  No_images_found | Too_few_images nat | No_full_sheets nat
| Printed "(string \<times> sheet_op list) list" "string list"

text \<open>
  Lines 458--490: the exits, then one sheet per chunk of nine, named after the
  sanitized first and last path of the chunk and numbered from 1; the leftovers are
  reported.
\<close>

definition proxify_main ::
  "backend \<Rightarrow> config \<Rightarrow> (string \<Rightarrow> image option) \<Rightarrow> string \<Rightarrow> string list \<Rightarrow> run_result" where
  "proxify_main be cfg load input_folder listing =
     (case batch_plan (all_image_files input_folder listing) of
        No_images \<Rightarrow> No_images_found
      | Too_few n \<Rightarrow> Too_few_images n
      | No_full_sheet n \<Rightarrow> No_full_sheets n
      | Sheets chunks left \<Rightarrow>
          Printed (map (\<lambda>num_sheets_created.
                     let current_chunk_paths = chunks ! num_sheets_created in
                     (sheet_name (hd current_chunk_paths) (last current_chunk_paths) num_sheets_created,
                      create_printable_sheet be cfg load current_chunk_paths))
                   [0..<length chunks])
                  left)"

subsection \<open>Directory checks\<close>

text \<open>
  The file system as the driver sees it: which paths exist, which are directories, and
  where the operating system would let \<open>mkdir\<close> create a directory (permissions,
  read-only media). Paths are compared as strings, which matches the operating
  system for paths without \<open>.\<close> or \<open>..\<close> components and without repeated or
  trailing slashes.
\<close>

record fsys =
  fs_exists :: "string \<Rightarrow> bool"
  fs_is_dir :: "string \<Rightarrow> bool"
  fs_can_create :: "string \<Rightarrow> bool"

text \<open>
  \<open>posixpath.split\<close>: the path up to its last slash, with trailing slashes removed
  unless it consists of slashes only, and the last component.
\<close>

definition split_path :: "string \<Rightarrow> string \<times> string" where
  "split_path p =
     (let i = nat (rfind CHR ''/'' p + 1); head = take i p; tail = drop i p in
      (if head \<noteq> [] \<and> list_ex (\<lambda>c. c \<noteq> CHR ''/'') head
       then rev (dropWhile (\<lambda>c. c = CHR ''/'') (rev head)) else head, tail))"

text \<open>The first two lines of \<open>os.makedirs\<close>: split again when the path ends in a slash.\<close>

definition dir_parts :: "string \<Rightarrow> string \<times> string" where
  "dir_parts name = (let (head, tail) = split_path name in if tail = [] then split_path head else (head, tail))"

text \<open>The outcome of a system call: success, \<open>FileExistsError\<close>, or another \<open>OSError\<close>.\<close>

datatype os_result = Os_ok | Os_exists | Os_error

text \<open>
  \<open>os.mkdir\<close>: fails with \<open>FileExistsError\<close> on an existing path, and with another
  \<open>OSError\<close> when the parent is not a directory or creation is not permitted.
\<close>

definition mkdir :: "fsys \<Rightarrow> string \<Rightarrow> fsys \<times> os_result" where
  "mkdir fs p =
     (if fs_exists fs p then (fs, Os_exists)
      else if (fst (dir_parts p) = [] \<or> fs_is_dir fs (fst (dir_parts p))) \<and> fs_can_create fs p
      then (fs\<lparr>fs_exists := (fs_exists fs)(p := True), fs_is_dir := (fs_is_dir fs)(p := True)\<rparr>, Os_ok)
      else (fs, Os_error))"

text \<open>
  \<open>os.makedirs(name)\<close> with \<open>exist_ok=False\<close>: create the missing parent first
  (ignoring a \<open>FileExistsError\<close> from that call, passing on any other error), stop
  after the parent when the last component is \<open>.\<close>, then \<open>mkdir\<close> the path itself.
  The parent is shorter than the path, so the recursion ends.
\<close>

function makedirs :: "fsys \<Rightarrow> string \<Rightarrow> fsys \<times> os_result" where
  "makedirs fs name =
     (let (head, tail) = dir_parts name in
      if head \<noteq> [] \<and> tail \<noteq> [] \<and> \<not> fs_exists fs head then
        (let (fs1, r) = makedirs fs head in
         if r = Os_error then (fs1, Os_error)
         else if tail = ''.'' then (fs1, Os_ok)
         else mkdir fs1 name)
      else mkdir fs name)"
  by pat_completeness auto
termination
proof (relation "measure (\<lambda>(fs, name). length name)")
  have sp: "length (fst (split_path p)) + length (snd (split_path p)) \<le> length p" for p
  proof -
    define i where "i = nat (rfind CHR ''/'' p + 1)"
    have "length (dropWhile (\<lambda>c. c = CHR ''/'') (rev (take i p))) \<le> length (take i p)"
      using length_dropWhile_le [of _ "rev (take i p)"] by simp
    then have "length (fst (split_path p)) \<le> length (take i p)"
      unfolding split_path_def Let_def i_def [symmetric] by simp
    moreover have "snd (split_path p) = drop i p" by (simp add: split_path_def Let_def i_def)
    ultimately show ?thesis by (cases "i \<le> length p") auto
  qed
  have sp': "snd (split_path p) \<noteq> [] \<Longrightarrow> length (fst (split_path p)) < length p" for p
    using sp [of p] by (cases "snd (split_path p)") auto
  have de: "dir_parts p = (if snd (split_path p) = [] then split_path (fst (split_path p)) else split_path p)" for p
    by (simp add: dir_parts_def split: prod.split)
  have dp: "snd (dir_parts p) \<noteq> [] \<Longrightarrow> length (fst (dir_parts p)) < length p" for p
    using sp' [of p] sp' [of "fst (split_path p)"] sp [of p] by (auto simp: de split: if_splits)
  fix fs name x head tail
  assume "x = dir_parts name" "(head, tail) = x" "head \<noteq> [] \<and> tail \<noteq> [] \<and> \<not> fs_exists fs head"
  then show "((fs, head), fs, name) \<in> measure (\<lambda>(fs, name). length name)"
    using dp [of name] by (metis fst_conv in_measure prod.case snd_conv)
qed simp

declare makedirs.simps [simp del]

datatype setup_error = Input_not_dir | Create_failed | Output_not_dir

text \<open>Lines 437--450: each \<open>exit()\<close> is an error value; otherwise the updated file system.\<close>

definition setup_dirs :: "fsys \<Rightarrow> string \<Rightarrow> string \<Rightarrow> setup_error + fsys" where
  "setup_dirs fs input_folder output_dir_path =
     (if \<not> fs_is_dir fs input_folder then Inl Input_not_dir
      else if \<not> fs_exists fs output_dir_path then
        (case makedirs fs output_dir_path of (fs', Os_ok) \<Rightarrow> Inr fs' | _ \<Rightarrow> Inl Create_failed)
      else if \<not> fs_is_dir fs output_dir_path then Inl Output_not_dir
      else Inr fs)"

text \<open>
  The whole script after its two prompts (lines 433--504): the directory checks, then
  the batch over the listing of the input folder.
\<close>

definition proxify_run ::
  "backend \<Rightarrow> config \<Rightarrow> (string \<Rightarrow> image option) \<Rightarrow> (string \<Rightarrow> string list) \<Rightarrow> fsys \<Rightarrow>
   string \<Rightarrow> string \<Rightarrow> setup_error + fsys \<times> run_result" where
  "proxify_run be cfg load listdir fs input_folder output_dir_path =
     (case setup_dirs fs input_folder output_dir_path of
        Inl e \<Rightarrow> Inl e
      | Inr fs' \<Rightarrow> Inr (fs', proxify_main be cfg load input_folder (listdir input_folder)))"

subsection \<open>Facts about the driver\<close>

lemma mset_all_image_files:
  "mset (all_image_files d L) = mset (map (path_join d) (filter is_image_file L))"
  by (simp add: all_image_files_def)

lemma length_all_image_files [simp]:
  "length (all_image_files d L) = length (filter is_image_file L)"
  by (simp add: all_image_files_def)

lemma proxify_main_Printed:
  assumes "proxify_main be cfg load d L = Printed sheets left"
  obtains chunks where "batch_plan (all_image_files d L) = Sheets chunks left"
    and "sheets = map (\<lambda>k. (sheet_name (hd (chunks ! k)) (last (chunks ! k)) k,
                             create_printable_sheet be cfg load (chunks ! k))) [0..<length chunks]"
  using assms by (auto simp: proxify_main_def Let_def split: batch_outcome.splits)

text \<open>A run on a folder of ten images and a text file, none of which loads.\<close>

lemma proxify_main_example:
  "proxify_main nearest_backend proxify_config (\<lambda>p. None) ''in''
      [''j.png'', ''notes.txt'', ''i.png'', ''h.png'', ''g.jpeg'', ''f.tiff'', ''e.bmp'', ''d.gif'', ''c.jpg'', ''b.PNG'', ''a.png''] =
     Printed [(''a_to_i_sheet_1.png'', [VLine 3598, VLine 6598, HLine 4498, HLine 8698])] [''in/j.png'']"
proof -
  have f: "all_image_files ''in'' [''j.png'', ''notes.txt'', ''i.png'', ''h.png'', ''g.jpeg'', ''f.tiff'', ''e.bmp'', ''d.gif'', ''c.jpg'', ''b.PNG'', ''a.png''] = [''in/a.png'', ''in/b.PNG'', ''in/c.jpg'', ''in/d.gif'', ''in/e.bmp'', ''in/f.tiff'',
     ''in/g.jpeg'', ''in/h.png'', ''in/i.png''] @ [''in/j.png'']"
    by code_simp
  have b: "batch_plan ([''in/a.png'', ''in/b.PNG'', ''in/c.jpg'', ''in/d.gif'', ''in/e.bmp'', ''in/f.tiff'',
     ''in/g.jpeg'', ''in/h.png'', ''in/i.png''] @ [''in/j.png'']) = Sheets [[''in/a.png'', ''in/b.PNG'', ''in/c.jpg'', ''in/d.gif'', ''in/e.bmp'', ''in/f.tiff'',
     ''in/g.jpeg'', ''in/h.png'', ''in/i.png'']] [''in/j.png'']"
    by code_simp
  have c: "create_printable_sheet nearest_backend proxify_config (\<lambda>p. None) [''in/a.png'', ''in/b.PNG'', ''in/c.jpg'', ''in/d.gif'', ''in/e.bmp'', ''in/f.tiff'',
     ''in/g.jpeg'', ''in/h.png'', ''in/i.png''] =
     [VLine 3598, VLine 6598, HLine 4498, HLine 8698]"
    using proxify_config_card proxify_config_page proxify_config_rest
    by (simp add: create_printable_sheet_def grid_cells_eq resize_card_def cut_lines_def upt_rec)
  show ?thesis
    unfolding proxify_main_def f b batch_outcome.case
    apply (simp only: Let_def list.size add_0 upt_conv_Cons list.map)
    apply (simp only: nth_Cons_0 list.sel last.simps list.distinct if_False if_True c)
    apply simp
    apply code_simp
    done
qed

text \<open>
  C26. Every image file of the folder is printed or reported exactly once, in sorted
  order: when the driver makes sheets, the chunks followed by the leftovers are the
  sorted list of the folder's image paths, each with its multiplicity.
\<close>

theorem image_files_batched_once:
  assumes "batch_plan (all_image_files d L) = Sheets chunks left"
  shows "sorted (concat chunks @ left) \<and>
         mset (concat chunks @ left) = mset (map (path_join d) (filter is_image_file L))"
  using batch_plan_concat [OF assms] by (simp add: all_image_files_def)

theorem image_files_batched_once_witness:
  "sorted (concat [[''in/a.png'', ''in/b.PNG'', ''in/c.jpg'', ''in/d.gif'', ''in/e.bmp'', ''in/f.tiff'',
                    ''in/g.jpeg'', ''in/h.png'', ''in/i.png'']] @ [''in/j.png'']) \<and>
   mset (concat [[''in/a.png'', ''in/b.PNG'', ''in/c.jpg'', ''in/d.gif'', ''in/e.bmp'', ''in/f.tiff'',
                  ''in/g.jpeg'', ''in/h.png'', ''in/i.png'']] @ [''in/j.png'']) =
   mset (map (path_join ''in'') (filter is_image_file
     [''j.png'', ''notes.txt'', ''i.png'', ''h.png'', ''g.jpeg'', ''f.tiff'', ''e.bmp'', ''d.gif'', ''c.jpg'',
      ''b.PNG'', ''a.png'']))"
proof -
  have "batch_plan (all_image_files ''in''
     [''j.png'', ''notes.txt'', ''i.png'', ''h.png'', ''g.jpeg'', ''f.tiff'', ''e.bmp'', ''d.gif'', ''c.jpg'',
      ''b.PNG'', ''a.png'']) =
     Sheets [[''in/a.png'', ''in/b.PNG'', ''in/c.jpg'', ''in/d.gif'', ''in/e.bmp'', ''in/f.tiff'',
              ''in/g.jpeg'', ''in/h.png'', ''in/i.png'']] [''in/j.png'']"
    by code_simp
  from image_files_batched_once [OF this] show ?thesis .
qed

text \<open>
  C27. The sheets the driver composes: one per full chunk of nine of the sorted image
  list, the \<open>k\<close>-th composed from the images \<open>9k\<close> to \<open>9k + 8\<close>, and the rest
  reported as leftovers.
\<close>

theorem proxify_main_sheets:
  assumes "proxify_main be cfg load d L = Printed sheets left"
  shows "length sheets = length (filter is_image_file L) div 9 \<and>
         left = drop (9 * length sheets) (all_image_files d L) \<and>
         list_all (\<lambda>k. snd (sheets ! k) = create_printable_sheet be cfg load
                           (take 9 (drop (9 * k) (all_image_files d L)))) [0..<length sheets]"
proof -
  obtain chunks where b: "batch_plan (all_image_files d L) = Sheets chunks left"
    and sh: "sheets = map (\<lambda>k. (sheet_name (hd (chunks ! k)) (last (chunks ! k)) k,
                             create_printable_sheet be cfg load (chunks ! k))) [0..<length chunks]"
    using assms by (rule proxify_main_Printed)
  from b have ch: "chunks = map (\<lambda>k. take 9 (drop (9 * k) (all_image_files d L)))
                              [0..<length (all_image_files d L) div 9]"
    and l: "left = drop (length (all_image_files d L) div 9 * 9) (all_image_files d L)"
    by (simp_all add: batch_plan_Sheets)
  have n: "length sheets = length (filter is_image_file L) div 9" by (simp add: sh ch)
  moreover have "left = drop (9 * length sheets) (all_image_files d L)" by (simp add: l n mult.commute)
  moreover have "list_all (\<lambda>k. snd (sheets ! k) = create_printable_sheet be cfg load
                   (take 9 (drop (9 * k) (all_image_files d L)))) [0..<length sheets]"
    by (simp add: sh ch)
  ultimately show ?thesis by blast
qed

theorem proxify_main_sheets_witness:
  "proxify_main nearest_backend proxify_config (\<lambda>p. None) ''in''
      [''j.png'', ''notes.txt'', ''i.png'', ''h.png'', ''g.jpeg'', ''f.tiff'', ''e.bmp'', ''d.gif'', ''c.jpg'', ''b.PNG'', ''a.png''] =
     Printed [(''a_to_i_sheet_1.png'', [VLine 3598, VLine 6598, HLine 4498, HLine 8698])] [''in/j.png''] \<and>
   length [(''a_to_i_sheet_1.png'', [VLine 3598, VLine 6598, HLine 4498, HLine 8698])] =
     length (filter is_image_file [''j.png'', ''notes.txt'', ''i.png'', ''h.png'', ''g.jpeg'', ''f.tiff'', ''e.bmp'', ''d.gif'', ''c.jpg'', ''b.PNG'', ''a.png'']) div 9"
proof -
  note r = proxify_main_example
  from proxify_main_sheets [OF r] have "length [(''a_to_i_sheet_1.png'', [VLine 3598, VLine 6598, HLine 4498, HLine 8698])] =
     length (filter is_image_file [''j.png'', ''notes.txt'', ''i.png'', ''h.png'', ''g.jpeg'', ''f.tiff'', ''e.bmp'',
       ''d.gif'', ''c.jpg'', ''b.PNG'', ''a.png'']) div 9"
    by (rule conjunct1)
  with r show ?thesis by (rule conjI)
qed

text \<open>
  C28. No sheet overwrites another: the file names of the sheets of one run are
  pairwise distinct, since each ends in its own sheet number.
\<close>

theorem proxify_main_names_distinct:
  assumes "proxify_main be cfg load d L = Printed sheets left"
  shows "distinct (map fst sheets)"
proof -
  obtain chunks where sh: "sheets = map (\<lambda>k. (sheet_name (hd (chunks ! k)) (last (chunks ! k)) k,
                             create_printable_sheet be cfg load (chunks ! k))) [0..<length chunks]"
    using assms by (rule proxify_main_Printed)
  have "inj_on (\<lambda>k. sheet_name (hd (chunks ! k)) (last (chunks ! k)) k) {0..<length chunks}"
    by (rule inj_onI) (rule sheet_name_inj)
  then show ?thesis by (simp add: sh comp_def distinct_map)
qed

theorem proxify_main_names_distinct_witness:
  "proxify_main nearest_backend proxify_config (\<lambda>p. None) ''in''
      [''j.png'', ''notes.txt'', ''i.png'', ''h.png'', ''g.jpeg'', ''f.tiff'', ''e.bmp'', ''d.gif'', ''c.jpg'', ''b.PNG'', ''a.png''] =
     Printed [(''a_to_i_sheet_1.png'', [VLine 3598, VLine 6598, HLine 4498, HLine 8698])] [''in/j.png''] \<and>
   distinct (map fst [(''a_to_i_sheet_1.png'', [VLine 3598, VLine 6598, HLine 4498, HLine 8698])])"
proof -
  note r = proxify_main_example
  from proxify_main_names_distinct [OF r] r show ?thesis by (intro conjI)
qed

text \<open>
  C29. The driver prints at least one sheet exactly when the folder holds at least nine
  files with an image extension; otherwise it exits without a sheet.
\<close>

theorem proxify_main_prints:
  "(\<exists>sheets left. proxify_main be cfg load d L = Printed sheets left \<and> sheets \<noteq> []) \<longleftrightarrow>
     9 \<le> length (filter is_image_file L)"
  by (auto simp: proxify_main_def batch_plan_def Let_def)

lemma prefix_strip_tail: "prefix (rev (dropWhile P (rev xs))) xs"
proof -
  have "xs = rev (dropWhile P (rev xs)) @ rev (takeWhile P (rev xs))"
    by (metis rev_append rev_rev_ident takeWhile_dropWhile_id)
  then show ?thesis by (metis prefixI)
qed

lemma split_path_prefix: "prefix (fst (split_path p)) p"
proof -
  define i where "i = nat (rfind CHR ''/'' p + 1)"
  have "prefix (take i p) p" by (rule take_is_prefix)
  moreover have "prefix (rev (dropWhile (\<lambda>c. c = CHR ''/'') (rev (take i p)))) (take i p)"
    by (rule prefix_strip_tail)
  ultimately show ?thesis
    unfolding split_path_def Let_def i_def [symmetric] by (auto intro: prefix_order.trans)
qed

lemma dir_parts_prefix: "prefix (fst (dir_parts p)) p"
  using split_path_prefix [of p] split_path_prefix [of "fst (split_path p)"]
  by (auto simp: dir_parts_def split: prod.splits intro: prefix_order.trans)

text \<open>What a file-system step may do: turn missing paths of a set into directories.\<close>

lemma mkdir_effect:
  assumes "mkdir fs p = (fs', r)"
  shows "(\<forall>q. fs_exists fs' q \<noteq> fs_exists fs q \<or> fs_is_dir fs' q \<noteq> fs_is_dir fs q \<longrightarrow>
            q = p \<and> \<not> fs_exists fs q \<and> fs_is_dir fs' q \<and> fs_exists fs' q) \<and>
         (\<forall>q. fs_exists fs q \<longrightarrow> fs_exists fs' q) \<and> (\<forall>q. fs_is_dir fs q \<longrightarrow> fs_is_dir fs' q) \<and>
         fs_can_create fs' = fs_can_create fs \<and>
         (r = Os_ok \<longrightarrow> fs_is_dir fs' p \<and> fs_exists fs' p \<and>
            (fst (dir_parts p) = [] \<or> fs_is_dir fs' (fst (dir_parts p))))"
  using assms by (auto simp: mkdir_def split: if_splits)

lemma makedirs_effect:
  "makedirs fs p = (fs', r) \<Longrightarrow>
     (\<forall>q. fs_exists fs' q \<noteq> fs_exists fs q \<or> fs_is_dir fs' q \<noteq> fs_is_dir fs q \<longrightarrow>
            prefix q p \<and> \<not> fs_exists fs q \<and> fs_is_dir fs' q \<and> fs_exists fs' q) \<and>
     (\<forall>q. fs_exists fs q \<longrightarrow> fs_exists fs' q) \<and> (\<forall>q. fs_is_dir fs q \<longrightarrow> fs_is_dir fs' q) \<and>
     fs_can_create fs' = fs_can_create fs"
proof (induction fs p arbitrary: fs' r rule: makedirs.induct)
  case (1 fs name)
  obtain head tail where ht: "dir_parts name = (head, tail)" by (cases "dir_parts name")
  have hp: "prefix head name" using dir_parts_prefix [of name] by (simp add: ht)
  show ?case
  proof (cases "head \<noteq> [] \<and> tail \<noteq> [] \<and> \<not> fs_exists fs head")
    case True
    obtain fs1 r1 where m1: "makedirs fs head = (fs1, r1)" by (cases "makedirs fs head")
    have ih: "(\<forall>q. fs_exists fs1 q \<noteq> fs_exists fs q \<or> fs_is_dir fs1 q \<noteq> fs_is_dir fs q \<longrightarrow>
            prefix q head \<and> \<not> fs_exists fs q \<and> fs_is_dir fs1 q \<and> fs_exists fs1 q) \<and>
         (\<forall>q. fs_exists fs q \<longrightarrow> fs_exists fs1 q) \<and> (\<forall>q. fs_is_dir fs q \<longrightarrow> fs_is_dir fs1 q) \<and>
         fs_can_create fs1 = fs_can_create fs"
      using "1.IH" [OF ht [symmetric] refl True m1] .
    show ?thesis
    proof (cases "r1 = Os_error \<or> tail = ''.''")
      case True
      with "1.prems" m1 ht \<open>head \<noteq> [] \<and> tail \<noteq> [] \<and> \<not> fs_exists fs head\<close>
      have "fs' = fs1"
        by (auto simp: makedirs.simps [of fs name] split: if_splits)
      with ih hp show ?thesis by (blast intro: prefix_order.trans)
    next
      case False
      with "1.prems" m1 ht \<open>head \<noteq> [] \<and> tail \<noteq> [] \<and> \<not> fs_exists fs head\<close>
      have "mkdir fs1 name = (fs', r)" by (auto simp: makedirs.simps [of fs name])
      from mkdir_effect [OF this] ih hp show ?thesis
        by (metis prefix_order.order_refl prefix_order.trans)
    qed
  next
    case False
    with "1.prems" ht have "mkdir fs name = (fs', r)" by (auto simp: makedirs.simps [of fs name])
    from mkdir_effect [OF this] show ?thesis by blast
  qed
qed

lemma makedirs_ok:
  assumes "makedirs fs p = (fs', Os_ok)" and "snd (dir_parts p) \<noteq> ''.''"
  shows "fs_is_dir fs' p \<and> fs_exists fs' p \<and> (fst (dir_parts p) = [] \<or> fs_is_dir fs' (fst (dir_parts p)))"
proof -
  obtain head tail where ht: "dir_parts p = (head, tail)" by (cases "dir_parts p")
  have "\<exists>fs1. mkdir fs1 p = (fs', Os_ok)"
  proof (cases "head \<noteq> [] \<and> tail \<noteq> [] \<and> \<not> fs_exists fs head")
    case True
    obtain fs1 r1 where m1: "makedirs fs head = (fs1, r1)" by (cases "makedirs fs head")
    with assms True ht show ?thesis by (auto simp: makedirs.simps [of fs p] split: if_splits)
  next
    case False
    with assms ht show ?thesis by (auto simp: makedirs.simps [of fs p])
  qed
  then show ?thesis using mkdir_effect by blast
qed

text \<open>
  C30. The extension test selects a file by the end of its name alone: any name whose
  last characters are, ignoring case, one of the six extensions is selected, whatever
  precedes them, including dot files and macOS resource forks such as \<open>._card.png\<close>.
\<close>

theorem is_image_file_suffix:
  assumes "e \<in> set image_exts" and "map lower_char u = e"
  shows "is_image_file (stem @ u)"
proof -
  have "ends_with (map lower_char stem @ e) e" by (simp add: ends_with_def)
  with assms show ?thesis by (auto simp: is_image_file_def list_ex_iff)
qed

theorem is_image_file_suffix_witness:
  "''.png'' \<in> set image_exts \<and> map lower_char ''.PNG'' = ''.png'' \<and> is_image_file (''._card'' @ ''.PNG'')"
proof -
  have e: "''.png'' \<in> set image_exts" by (simp add: image_exts_def)
  have u: "map lower_char ''.PNG'' = ''.png''" by code_simp
  have "is_image_file (''._card'' @ ''.PNG'')" by (rule is_image_file_suffix [OF e u])
  with e u show ?thesis by (intro conjI)
qed

text \<open>
  C35. When the directory checks pass and the output path does not end in a \<open>.\<close>
  component, the input and output paths are directories, and the only paths that changed are previously missing prefixes of the
  output path, which are now directories: the output directory and the parents
  \<open>os.makedirs\<close> created for it. Nothing that existed is removed.
\<close>

theorem setup_dirs_ready:
  assumes "setup_dirs fs input_folder output_dir_path = Inr fs'"
    and "snd (dir_parts output_dir_path) \<noteq> ''.''"
  shows "fs_is_dir fs' input_folder \<and> fs_is_dir fs' output_dir_path \<and>
         (\<forall>q. fs_exists fs q \<longrightarrow> fs_exists fs' q) \<and>
         (\<forall>q. fs_exists fs' q \<noteq> fs_exists fs q \<or> fs_is_dir fs' q \<noteq> fs_is_dir fs q \<longrightarrow>
            prefix q output_dir_path \<and> \<not> fs_exists fs q \<and> fs_is_dir fs' q)"
proof (cases "fs_exists fs output_dir_path")
  case True
  with assms(1) have "fs' = fs" "fs_is_dir fs input_folder" "fs_is_dir fs output_dir_path"
    by (auto simp: setup_dirs_def split: if_splits)
  then show ?thesis by simp
next
  case False
  with assms(1) have i: "fs_is_dir fs input_folder" and m: "makedirs fs output_dir_path = (fs', Os_ok)"
    by (auto simp: setup_dirs_def split: if_splits prod.splits os_result.splits)
  from makedirs_effect [OF m] makedirs_ok [OF m assms(2)] i show ?thesis by blast
qed

theorem setup_dirs_ready_witness:
  "\<exists>fs'. setup_dirs \<lparr>fs_exists = (\<lambda>p. p = ''in''), fs_is_dir = (\<lambda>p. p = ''in''), fs_can_create = (\<lambda>p. True)\<rparr> ''in'' ''out/sheets'' = Inr fs' \<and>
     snd (dir_parts ''out/sheets'') \<noteq> ''.'' \<and> fs_is_dir fs' ''out/sheets'' \<and> fs_is_dir fs' ''in'' \<and>
     fs_is_dir fs' ''out''"
proof -
  have "\<not> isl (setup_dirs \<lparr>fs_exists = (\<lambda>p. p = ''in''), fs_is_dir = (\<lambda>p. p = ''in''), fs_can_create = (\<lambda>p. True)\<rparr> ''in'' ''out/sheets'')" by code_simp
  then obtain fs' where s: "setup_dirs \<lparr>fs_exists = (\<lambda>p. p = ''in''), fs_is_dir = (\<lambda>p. p = ''in''), fs_can_create = (\<lambda>p. True)\<rparr> ''in'' ''out/sheets'' = Inr fs'"
    by (cases "setup_dirs \<lparr>fs_exists = (\<lambda>p. p = ''in''), fs_is_dir = (\<lambda>p. p = ''in''), fs_can_create = (\<lambda>p. True)\<rparr> ''in'' ''out/sheets''") auto
  have d: "snd (dir_parts ''out/sheets'') \<noteq> ''.''" by code_simp
  have "case setup_dirs \<lparr>fs_exists = (\<lambda>p. p = ''in''), fs_is_dir = (\<lambda>p. p = ''in''), fs_can_create = (\<lambda>p. True)\<rparr> ''in'' ''out/sheets'' of Inl _ \<Rightarrow> False | Inr fs' \<Rightarrow> fs_is_dir fs' ''out''"
    by code_simp
  with s have o: "fs_is_dir fs' ''out''" by simp
  from setup_dirs_ready [OF s d] s d o show ?thesis by blast
qed

text \<open>
  C36. The three exits of the directory checks: the input path is not a directory; the
  output path does not exist and \<open>os.makedirs\<close> raises; the output path exists and is
  not a directory. They arise in exactly these situations, checked in this order.
\<close>

theorem setup_dirs_errors:
  "(setup_dirs fs inp outp = Inl Input_not_dir \<longleftrightarrow> \<not> fs_is_dir fs inp) \<and>
   (setup_dirs fs inp outp = Inl Create_failed \<longleftrightarrow>
      fs_is_dir fs inp \<and> \<not> fs_exists fs outp \<and> snd (makedirs fs outp) \<noteq> Os_ok) \<and>
   (setup_dirs fs inp outp = Inl Output_not_dir \<longleftrightarrow> fs_is_dir fs inp \<and> fs_exists fs outp \<and> \<not> fs_is_dir fs outp)"
  by (auto simp: setup_dirs_def split: prod.splits os_result.splits)

end
