(* ===== verification/Spec2Isabelle.thy ===== *)
theory Spec2Isabelle
  imports Driver
begin

text \<open>
  \<^bold>\<open>A verification model of proxify.\<close>
  \<open>src/proxify.py\<close> turns a folder of trading-card images into print sheets of 3
  \<open>\<times>\<close> 3 cards at 1200 DPI. Its core, modelled here, decides per card where the
  painted artwork ends and the printed black frame begins, classifies the frame, and
  crops the source so that after one resize to the card size every card prints the same
  border widths. The components, in the order the data flows, and the theories that
  model them:

  \<^item> \<^bold>\<open>Prelude\<close>: Python's \<open>round\<close> on floats (\<open>py_round\<close>, round half to
    even on exact rationals) and the facts about first-hit scans (\<open>find\<close> over
    \<open>[a..<b]\<close> and its reverse) that every \<open>for ... break\<close> loop of the source
    becomes; the collections \<open>geom_simps\<close> and \<open>scan_facts\<close>.
  \<^item> \<^bold>\<open>Pil\<close>: the Pillow behaviour the script relies on. An RGBA image is a
    record of width, height and pixel function with \<open>8 word\<close> channels;
    \<open>pil_crop\<close> is \<open>Image.crop\<close> (raises \<open>ValueError\<close> on an inverted box, pads
    outside the source with transparent black); \<open>pil_new\<close> is \<open>Image.new\<close>. The
    LANCZOS resize and the \<open>ImageEnhance\<close> filters are the fields of a
    \<open>backend\<close> record, an interface: the renderer's theorems assume only
    \<open>backend_ok\<close> (output sizes), and \<open>nearest_backend\<close> discharges it.
  \<^item> \<^bold>\<open>Config\<close> (lines 6--62): the configuration globals as one \<open>config\<close>
    record passed to every component; \<open>proxify_config\<close> recomputes the script's
    values (card 3000 \<open>\<times>\<close> 4200 px, borders 142/142/142/194 px, scan offset
    142 px, page 10200 \<open>\<times>\<close> 13200 px, margins 600/300 px) from its own formulas.
  \<^item> \<^bold>\<open>Detect\<close>, the Content Extent Detector: \<open>get_content_bounding_box\<close>
    (lines 64--101; the mask loop \<open>content_mask_scan\<close> folds \<open>mark_step\<close> over
    rows then columns, then PIL's \<open>getbbox\<close>) and \<open>get_content_extents_at_row\<close>
    (lines 103--139). \<open>is_content\<close> is the threshold test of lines 94/122/135.
  \<^item> \<^bold>\<open>Border\<close>, the Border Solidity Checker:
    \<open>check_strip_for_solid_lr_border\<close> (lines 141--193), with its declarative
    reading \<open>solid_lr\<close>.
  \<^item> \<^bold>\<open>Classify\<close>, the Frame Classifier: \<open>determine_card_type\<close> (lines
    195--228) with its two zone boxes and the classification table
    \<open>classify_zones\<close>; the card type is the datatype \<open>card_type\<close>.
  \<^item> \<^bold>\<open>Crop\<close>, the Border-Normalizing Cropper (lines 249--324):
    \<open>effective_content\<close>, \<open>keep_orig_border\<close>, \<open>proportional_box\<close> and the crop
    decision \<open>border_crop\<close>, whose result \<open>crop_path\<close> names the path taken
    (proportional crop, content-box fallback, whole-image fallback).
  \<^item> \<^bold>\<open>Render\<close>, the Card Renderer: \<open>resize_card\<close> (lines 230--386) as
    \<open>resize_card_image\<close> on a loaded image (errors as \<open>pil_error + image\<close>) and
    \<open>resize_card\<close> around a \<open>load\<close> function (\<open>None\<close> for a missing or
    undecodable file), with \<open>full_art_crop\<close>, \<open>fit_to_card\<close> and \<open>enhance\<close>.
  \<^item> \<^bold>\<open>Sheet\<close>, the Sheet Composer: \<open>create_printable_sheet\<close> (lines
    388--422) as the list of drawing operations (\<open>sheet_op\<close>: pastes and cut lines) it
    issues on the white page, built from the cell loop \<open>place_cards\<close> over
    \<open>grid_cells\<close> and \<open>cut_lines\<close>; \<open>sheet_layout\<close> is the abstract layout it
    refines. \<open>batch_plan\<close> is the decision logic of lines 458--504 (the three exits,
    the chunks of nine and the leftovers) as a \<open>batch_outcome\<close>.
  \<^item> \<^bold>\<open>Names\<close>, the Filename sanitizer: \<open>sanitize_filename_component\<close> (lines
    424--431) with Python's \<open>basename\<close>, \<open>splitext\<close> root, the two \<open>re.sub\<close> passes
    (\<open>re_sub_runs\<close>) and \<open>strip('_')\<close> (\<open>strip_us\<close>); \<open>sheet_name\<close> is the
    sheet file name of line 485, with \<open>nat_str\<close> for \<open>str\<close> of a number.
  \<^item> \<^bold>\<open>Driver\<close>, the batch driver (the \<open>__main__\<close> block, lines 433--504): the
    directory checks \<open>setup_dirs\<close> over an explicit file-system record \<open>fsys\<close>
    (\<open>os.path.isdir\<close>, \<open>os.path.exists\<close>, and \<open>os.makedirs\<close> as \<open>makedirs\<close>,
    which follows CPython: the missing parent is created first by recursion on
    \<open>posixpath.split\<close>, a \<open>FileExistsError\<close> from that call is ignored, and
    \<open>os.mkdir\<close> fails on an existing path, under a parent that is not a directory, or
    where creation is not permitted), the image list \<open>all_image_files\<close> (extension
    filter \<open>is_image_file\<close>, \<open>os.path.join\<close>, \<open>sorted\<close> by code point), the sheet
    loop \<open>proxify_main\<close> and the whole run \<open>proxify_run\<close>. The two prompts and the
    directory listing are parameters.

  \<^bold>\<open>What is proved.\<close> Claims C1--C37 are stated in the component theories, each
  after a text block naming it. The cropper's border accuracy (C1, C2): when the source
  frame is thick enough for the widened box not to be clamped, each printed border is
  within \<open>card size / (2 \<times> crop size)\<close> output pixels of its configured width, so
  within one pixel when the final resize enlarges at most twice. The renderer (C3--C5):
  every loadable image gives a card of exactly the card size, on every path, since no
  crop of the pipeline can raise; a card is missing only when its file does not load;
  the full-art trim keeps \<open>H - T\<close> rows, or one row when \<open>T \<ge> H\<close>. The detector
  (C6, C7, C13, C14): the bounding box is tight and is \<open>None\<close> exactly without
  content; row extents are the inclusive first and last content columns; the
  \<open>IndexError\<close> of an out-of-range row arises exactly when the image has a column.
  The classifier (C8--C10, C16, C17): it never raises, and a \<open>standard\<close> or
  \<open>extended_art\<close> label implies dark edge bands in the sampled zones of the source;
  the middle zone stays in the image when it fits, and reaches below it when the
  minimum zone height exceeds the image height. The border checker (C11, C12):
  monotone in the band width, false on degenerate strips. C15 records that extended-art
  cards take an inclusive right edge where the bounding box is exclusive. The
  composer (C18--C21): each pasted card is the rendered card of the path of its cell,
  one card per loadable path among the first nine, the nine cells are disjoint, and
  with the margins of lines 56--57 the grid is centred to within one pixel and lies on
  the page. The batch plan (C22, C23): its sheets partition the file list into chunks
  of nine followed by the \<open>n mod 9\<close> leftovers, and its guard against zero full
  sheets is never taken. The sanitizer and names (C24, C25, C31): every sanitized
  fragment is non-empty, free of forbidden characters, underscores only inside and
  never doubled; sanitizing is idempotent; the sheet number is read back from a
  sheet's file name. The driver (C26--C30, C35, C36): every image of the folder is
  printed or reported exactly once in sorted order, the \<open>k\<close>-th sheet is composed
  from images \<open>9k\<close> to \<open>9k + 8\<close>, sheet names of a run are distinct, a run prints
  exactly when nine image names exist, any name ending in an image extension is
  selected; when the directory checks pass both paths are directories and only
  missing prefixes of the output path were created, and otherwise the run exits in
  exactly the three documented cases. Equivalences and refinement (C32--C34): the band
  loop of the border checker and the mask loop of the detector equal their declarative
  readings, and the pastes of a sheet are exactly its abstract layout. Across
  components (C37): every card pasted on any sheet has exactly the configured card
  size.

  \<^bold>\<open>Modelling choices.\<close> Python floats are exact rationals; \<open>round\<close> is
  \<open>py_round\<close>, and \<open>1e-6\<close> is \<open>1/1000000\<close>. For content widths below 60000 px the
  float computation \<open>round(B / (A / c))\<close> equals the exact one (checked
  numerically, outside the kernel). \<open>int(h * 0.05)\<close>, \<open>int(h * 0.5)\<close> and
  \<open>int(h * 0.6)\<close> are \<open>h div 20\<close>, \<open>h div 2\<close> and \<open>3 * h div 5\<close>, equal for every
  height below 200000. No loop needs fuel: every loop of the core runs over a finite
  index range and is a \<open>fold\<close>, \<open>list_all\<close> or \<open>find\<close>. The target card size
  that \<open>create_printable_sheet\<close> passes to \<open>resize_card\<close> is taken from the
  configuration.

  The file-system model compares paths as strings, which matches the operating system
  for paths without \<open>.\<close> or \<open>..\<close> components and without repeated or trailing
  slashes; symbolic links are not modelled. \<open>makedirs\<close> terminates because each
  recursive call is on the parent, a strictly shorter string.

  Python strings are modelled as lists of 8-bit characters, so the sanitizer and the
  image filter are faithful for names of code points below 256; \<open>str.lower\<close> and the
  \<open>\s\<close> class are Python's on that range.

  \<^bold>\<open>Not modelled\<close>: console output (every \<open>print\<close>, which does not affect the
  result), the \<open>input()\<close> prompts (parameters), reading and decoding image files (the
  \<open>load\<close> parameter), saving a sheet (\<open>sheet.save\<close>; its failure is only printed),
  and the pixel values produced by LANCZOS resampling, enhancement, alpha pasting and
  line drawing, which depend on Pillow's numerical code; only their sizes and
  positions are modelled.
\<close>

end
